theory Spec2Isabelle
  imports Main "HOL-Library.Word" "HOL-Library.AList"
begin

section \<open>Text read from and written to files\<close>

text \<open>
  The migration helper reads every file with \<^verbatim>\<open>fs.readFileSync(p, 'utf8')\<close> and writes
  it back with \<^verbatim>\<open>fs.writeFileSync(p, content)\<close>. A file on disk is a sequence of bytes
  (\<^typ>\<open>char list\<close>: a \<^typ>\<open>char\<close> is one byte); a JavaScript string is a sequence
  of UTF-16 code units. Reading decodes the bytes as UTF-8, every malformed sequence
  becoming U+FFFD (the replacement of a maximal subpart, as the WHATWG decoder used by
  Node does); writing encodes the string as UTF-8, a lone surrogate becoming U+FFFD.
\<close>

type_synonym bytes = "char list"
type_synonym js_string = "16 word list"

definition is_cont :: "nat \<Rightarrow> bool" where
  "is_cont b \<longleftrightarrow> 128 \<le> b \<and> b \<le> 191"

text \<open>The range allowed for the byte after a lead byte (0xE0, 0xED, 0xF0 and 0xF4 narrow it).\<close>

definition second_ok :: "nat \<Rightarrow> nat \<Rightarrow> bool" where
  "second_ok b0 b1 \<longleftrightarrow>
     (if b0 = 224 then 160 \<le> b1 \<and> b1 \<le> 191
      else if b0 = 237 then 128 \<le> b1 \<and> b1 \<le> 159
      else if b0 = 240 then 144 \<le> b1 \<and> b1 \<le> 191
      else if b0 = 244 then 128 \<le> b1 \<and> b1 \<le> 143
      else is_cont b1)"

text \<open>
  One step of the decoder on the bytes \<open>b0 # bs\<close>: the code point read (\<open>None\<close> for a
  malformed sequence) and the bytes left. A byte that breaks a sequence is left for the
  next step.
\<close>

definition utf8_decode1 :: "nat \<Rightarrow> nat list \<Rightarrow> nat option \<times> nat list" where
  "utf8_decode1 b0 bs =
     (if b0 < 128 then (Some b0, bs)
      else if 194 \<le> b0 \<and> b0 \<le> 223 then
        (case bs of
           [] \<Rightarrow> (None, [])
         | b1 # r1 \<Rightarrow>
             if is_cont b1 then (Some ((b0 - 192) * 64 + (b1 - 128)), r1) else (None, bs))
      else if 224 \<le> b0 \<and> b0 \<le> 239 then
        (case bs of
           [] \<Rightarrow> (None, [])
         | b1 # r1 \<Rightarrow>
             if second_ok b0 b1 then
               (case r1 of
                  [] \<Rightarrow> (None, [])
                | b2 # r2 \<Rightarrow>
                    if is_cont b2
                    then (Some ((b0 - 224) * 4096 + (b1 - 128) * 64 + (b2 - 128)), r2)
                    else (None, r1))
             else (None, bs))
      else if 240 \<le> b0 \<and> b0 \<le> 244 then
        (case bs of
           [] \<Rightarrow> (None, [])
         | b1 # r1 \<Rightarrow>
             if second_ok b0 b1 then
               (case r1 of
                  [] \<Rightarrow> (None, [])
                | b2 # r2 \<Rightarrow>
                    if is_cont b2 then
                      (case r2 of
                         [] \<Rightarrow> (None, [])
                       | b3 # r3 \<Rightarrow>
                           if is_cont b3
                           then (Some ((b0 - 240) * 262144 + (b1 - 128) * 4096
                                       + (b2 - 128) * 64 + (b3 - 128)), r3)
                           else (None, r2))
                    else (None, r1))
             else (None, bs))
      else (None, bs))"

function utf8_decode_raw :: "nat list \<Rightarrow> nat option list" where
  "utf8_decode_raw [] = []"
| "utf8_decode_raw (b0 # bs) =
     fst (utf8_decode1 b0 bs) # utf8_decode_raw (snd (utf8_decode1 b0 bs))"
  by pat_completeness auto
termination
  by (relation "measure length") (simp_all add: utf8_decode1_def le_imp_less_Suc split: list.split)

definition replacement :: nat where
  "replacement = 65533"

definition utf8_decode :: "nat list \<Rightarrow> nat list" where
  "utf8_decode bs = map (\<lambda>r. case r of None \<Rightarrow> replacement | Some c \<Rightarrow> c) (utf8_decode_raw bs)"

definition well_formed_utf8 :: "bytes \<Rightarrow> bool" where
  "well_formed_utf8 b \<longleftrightarrow> None \<notin> set (utf8_decode_raw (map of_char b))"

definition utf8_of_cp :: "nat \<Rightarrow> nat list" where
  "utf8_of_cp c =
     (if c < 128 then [c]
      else if c < 2048 then [192 + c div 64, 128 + c mod 64]
      else if c < 65536 then [224 + c div 4096, 128 + c div 64 mod 64, 128 + c mod 64]
      else [240 + c div 262144, 128 + c div 4096 mod 64, 128 + c div 64 mod 64,
            128 + c mod 64])"

definition utf16_of_cp :: "nat \<Rightarrow> nat list" where
  "utf16_of_cp c =
     (if c < 65536 then [c]
      else [55296 + (c - 65536) div 1024, 56320 + (c - 65536) mod 1024])"

definition is_high :: "nat \<Rightarrow> bool" where
  "is_high u \<longleftrightarrow> 55296 \<le> u \<and> u \<le> 56319"

definition is_low :: "nat \<Rightarrow> bool" where
  "is_low u \<longleftrightarrow> 56320 \<le> u \<and> u \<le> 57343"

definition lone :: "nat \<Rightarrow> nat" where
  "lone u = (if is_high u \<or> is_low u then replacement else u)"

fun utf16_decode :: "nat list \<Rightarrow> nat list" where
  "utf16_decode [] = []"
| "utf16_decode [u] = [lone u]"
| "utf16_decode (u # v # r) =
     (if is_high u \<and> is_low v
      then (65536 + (u - 55296) * 1024 + (v - 56320)) # utf16_decode r
      else lone u # utf16_decode (v # r))"

definition decode_utf8 :: "bytes \<Rightarrow> js_string" where
  "decode_utf8 b = map of_nat (concat (map utf16_of_cp (utf8_decode (map of_char b))))"

definition encode_utf8 :: "js_string \<Rightarrow> bytes" where
  "encode_utf8 s = map char_of (concat (map utf8_of_cp (utf16_decode (map unat s))))"

section \<open>The checksum\<close>

text \<open>
  \<^verbatim>\<open>hash = ((hash << 5) - hash) + char; hash = hash & hash\<close>: the shift and the
  conjunction work on 32-bit signed integers, the subtraction and the addition on numbers
  (exact here, all values being far below \<open>2^53\<close>).
\<close>

definition js_shl :: "int \<Rightarrow> nat \<Rightarrow> int" where
  "js_shl x n = sint (push_bit n (word_of_int x :: 32 word))"

definition js_and :: "int \<Rightarrow> int \<Rightarrow> int" where
  "js_and x y = sint (and (word_of_int x :: 32 word) (word_of_int y))"

definition hash_step :: "int \<Rightarrow> 16 word \<Rightarrow> int" where
  "hash_step hash c =
     (let char = uint c;
          hash1 = (js_shl hash 5 - hash) + char
      in js_and hash1 hash1)"

definition hex_digit :: "nat \<Rightarrow> char" where
  "hex_digit d = (if d < 10 then char_of (48 + d) else char_of (87 + d))"

function to_hex :: "nat \<Rightarrow> string" where
  "to_hex n = (if n < 16 then [hex_digit n] else to_hex (n div 16) @ [hex_digit (n mod 16)])"
  by pat_completeness auto
termination
  by (relation "measure id") auto

declare to_hex.simps [simp del]

definition toString16 :: "int \<Rightarrow> string" where
  "toString16 h = (if h < 0 then CHR ''-'' # to_hex (nat (- h)) else to_hex (nat h))"

definition calculateMockChecksum :: "js_string \<Rightarrow> string" where
  "calculateMockChecksum content = toString16 (foldl hash_step 0 content)"

section \<open>The file system\<close>

text \<open>
  The file system as the helper sees it: directories named by their (normalised) path,
  each a list of named entries in listing order. \<^verbatim>\<open>path.join(dir, file)\<close> is the
  pair of the directory and the entry name. A file carries its bytes, its access and
  modification times, whether it may be read and written, and whether the caller owns
  it; a directory carries whether entries may be created and removed in it. An entry \<open>Directory\<close> is a subdirectory;
  what it contains is listed under its own path. Links are not part of the model.
\<close>

record regular_file =
  data :: bytes
  atime :: nat
  mtime :: nat
  readable :: bool
  writable :: bool
  owned :: bool

datatype node = File regular_file | Directory

record directory =
  dir_writable :: bool
  entries :: "(string \<times> node) list"

type_synonym filesystem = "string \<Rightarrow> directory option"
type_synonym path = "string \<times> string"

datatype errno = ENOENT | EISDIR | EACCES | EPERM

definition lookup :: "filesystem \<Rightarrow> path \<Rightarrow> node option" where
  "lookup fs p = (case fs (fst p) of None \<Rightarrow> None | Some d \<Rightarrow> map_of (entries d) (snd p))"

text \<open>\<^verbatim>\<open>fs.accessSync(dir, fs.constants.W_OK)\<close>\<close>

definition accessSync_W_OK :: "filesystem \<Rightarrow> string \<Rightarrow> errno + unit" where
  "accessSync_W_OK fs dir =
     (case fs dir of
        None \<Rightarrow> Inl ENOENT
      | Some d \<Rightarrow> if dir_writable d then Inr () else Inl EACCES)"

definition readdirSync :: "filesystem \<Rightarrow> string \<Rightarrow> errno + string list" where
  "readdirSync fs dir =
     (case fs dir of None \<Rightarrow> Inl ENOENT | Some d \<Rightarrow> Inr (map fst (entries d)))"

definition statSync :: "filesystem \<Rightarrow> path \<Rightarrow> errno + node" where
  "statSync fs p = (case lookup fs p of None \<Rightarrow> Inl ENOENT | Some n \<Rightarrow> Inr n)"

definition existsSync :: "filesystem \<Rightarrow> path \<Rightarrow> bool" where
  "existsSync fs p \<longleftrightarrow> lookup fs p \<noteq> None"

definition readFileSync :: "filesystem \<Rightarrow> path \<Rightarrow> errno + js_string" where
  "readFileSync fs p =
     (case lookup fs p of
        None \<Rightarrow> Inl ENOENT
      | Some Directory \<Rightarrow> Inl EISDIR
      | Some (File f) \<Rightarrow> if readable f then Inr (decode_utf8 (data f)) else Inl EACCES)"

definition put :: "filesystem \<Rightarrow> path \<Rightarrow> node \<Rightarrow> filesystem" where
  "put fs p n =
     (case fs (fst p) of
        None \<Rightarrow> fs
      | Some d \<Rightarrow> fs(fst p \<mapsto> d\<lparr>entries := AList.update (snd p) n (entries d)\<rparr>))"

text \<open>
  \<^verbatim>\<open>fs.writeFileSync(p, s)\<close> at the time \<open>now\<close>: a new file is created at the end of
  the listing and belongs to the caller, an existing one is truncated and rewritten.
\<close>

definition writeFileSync :: "nat \<Rightarrow> filesystem \<Rightarrow> path \<Rightarrow> js_string \<Rightarrow> errno + filesystem" where
  "writeFileSync now fs p s =
     (case fs (fst p) of
        None \<Rightarrow> Inl ENOENT
      | Some d \<Rightarrow>
          (case map_of (entries d) (snd p) of
             None \<Rightarrow>
               if dir_writable d
               then Inr (put fs p (File \<lparr>data = encode_utf8 s, atime = now, mtime = now,
                                         readable = True, writable = True, owned = True\<rparr>))
               else Inl EACCES
           | Some Directory \<Rightarrow> Inl EISDIR
           | Some (File f) \<Rightarrow>
               if writable f
               then Inr (put fs p (File (f\<lparr>data := encode_utf8 s, mtime := now\<rparr>)))
               else Inl EACCES))"

text \<open>
  \<^verbatim>\<open>fs.utimesSync(p, atime, mtime)\<close>: setting the times of a file to given values is
  for its owner; on a file the caller may write but does not own it throws \<open>EPERM\<close>.
  The helper calls it on regular files only.
\<close>

definition utimesSync :: "filesystem \<Rightarrow> path \<Rightarrow> nat \<Rightarrow> nat \<Rightarrow> errno + filesystem" where
  "utimesSync fs p a m =
     (case lookup fs p of
        None \<Rightarrow> Inl ENOENT
      | Some Directory \<Rightarrow> Inr fs
      | Some (File f) \<Rightarrow>
          if owned f then Inr (put fs p (File (f\<lparr>atime := a, mtime := m\<rparr>)))
          else Inl EPERM)"

definition unlinkSync :: "filesystem \<Rightarrow> path \<Rightarrow> errno + filesystem" where
  "unlinkSync fs p =
     (case fs (fst p) of
        None \<Rightarrow> Inl ENOENT
      | Some d \<Rightarrow>
          (case map_of (entries d) (snd p) of
             None \<Rightarrow> Inl ENOENT
           | Some Directory \<Rightarrow> Inl EISDIR
           | Some (File f) \<Rightarrow>
               if dir_writable d
               then Inr (fs(fst p \<mapsto> d\<lparr>entries := AList.delete (snd p) (entries d)\<rparr>))
               else Inl EACCES))"

text \<open>
  \<^verbatim>\<open>error.message\<close> of the exception a failed call throws: the error code and its
  description (Node appends the name of the system call and the path).
\<close>

definition message :: "errno \<Rightarrow> string" where
  "message e =
     (case e of
        ENOENT \<Rightarrow> ''ENOENT: no such file or directory''
      | EISDIR \<Rightarrow> ''EISDIR: illegal operation on a directory''
      | EACCES \<Rightarrow> ''EACCES: permission denied''
      | EPERM \<Rightarrow> ''EPERM: operation not permitted'')"

section \<open>Migration and rollback\<close>

text \<open>
  The interfaces of the helper. An option that is left out is read as false, and only
  the truth of an option is ever tested, so every option is a \<^typ>\<open>bool\<close>. The
  \<open>timestamp\<close> is the time of \<^verbatim>\<open>new Date()\<close>, of which the code stores the ISO
  rendering. \<open>checksums\<close> is a \<^verbatim>\<open>Map\<close>, which keeps its keys in the order of
  their first insertion: an association list, updated in place.
\<close>

record MigrationOptions =
  preserveOriginal :: bool
  createRollbackInfo :: bool
  enableIntegrityChecks :: bool
  skipOnError :: bool
  retry :: bool
  preserveMetadata :: bool

record RollbackInfo =
  sourceDir :: string
  targetDir :: string
  migratedFiles :: "string list"
  timestamp :: nat

record IntegrityCheckResult =
  fileCount :: nat
  allChecksPassed :: bool
  checksums :: "(string \<times> string) list"

record MigrationResult =
  success :: bool
  error :: "string option"
  rollbackInfo :: "RollbackInfo option"
  integrityChecks :: "IntegrityCheckResult option"

text \<open>
  What the loop of \<open>performMockMigration\<close> changes: the file system, the list
  \<^verbatim>\<open>migratedFiles\<close> (here \<open>written\<close>) and the map \<^verbatim>\<open>checksums\<close> (here \<open>sums\<close>).
\<close>

record pass =
  disk :: filesystem
  written :: "string list"
  sums :: "(string \<times> string) list"

text \<open>
  The idempotency test of the loop body (\<^verbatim>\<open>if (fs.existsSync(targetFile)) ...\<close>):
  \<open>Inr True\<close> when the target exists and reads the same text, an error when reading
  it throws.
\<close>

definition already_migrated :: "filesystem \<Rightarrow> path \<Rightarrow> js_string \<Rightarrow> errno + bool" where
  "already_migrated fs targetFile content =
     (if existsSync fs targetFile then
        (case readFileSync fs targetFile of
           Inl e \<Rightarrow> Inl e
         | Inr existingContent \<Rightarrow> Inr (existingContent = content))
      else Inr False)"

text \<open>\<^verbatim>\<open>if (options.enableIntegrityChecks) checksums.set(file, calculateMockChecksum(content))\<close>\<close>

definition record_checksum :: "MigrationOptions \<Rightarrow> string \<Rightarrow> js_string \<Rightarrow> pass \<Rightarrow> pass" where
  "record_checksum options file content st =
     (if enableIntegrityChecks options
      then st\<lparr>sums := AList.update file (calculateMockChecksum content) (sums st)\<rparr>
      else st)"

text \<open>
  The end of the loop body: write the target, push the name on \<^verbatim>\<open>migratedFiles\<close>,
  copy the time stamps under \<open>preserveMetadata\<close>. An exception leaves the loop with
  the file system as it is at that moment.
\<close>

definition write_target ::
  "MigrationOptions \<Rightarrow> nat \<Rightarrow> path \<Rightarrow> string \<Rightarrow> regular_file \<Rightarrow> js_string \<Rightarrow> pass
     \<Rightarrow> errno \<times> filesystem + pass" where
  "write_target options now targetFile file stats content st =
     (case writeFileSync now (disk st) targetFile content of
        Inl e \<Rightarrow> Inl (e, disk st)
      | Inr fs2 \<Rightarrow>
          let st2 = st\<lparr>disk := fs2, written := written st @ [file]\<rparr> in
          if preserveMetadata options then
            (case utimesSync fs2 targetFile (atime stats) (mtime stats) of
               Inl e \<Rightarrow> Inl (e, fs2)
             | Inr fs3 \<Rightarrow> Inr (st2\<lparr>disk := fs3\<rparr>))
          else Inr st2)"

text \<open>
  The body of \<^verbatim>\<open>for (const file of files)\<close> for one directory entry: an entry that
  is not a regular file is passed over.
\<close>

definition migrate_file ::
  "MigrationOptions \<Rightarrow> nat \<Rightarrow> string \<Rightarrow> string \<Rightarrow> string \<Rightarrow> pass \<Rightarrow> errno \<times> filesystem + pass" where
  "migrate_file options now src tgt file st =
     (let sourceFile = (src, file); targetFile = (tgt, file) in
      case statSync (disk st) sourceFile of
        Inl e \<Rightarrow> Inl (e, disk st)
      | Inr Directory \<Rightarrow> Inr st
      | Inr (File stats) \<Rightarrow>
          (case readFileSync (disk st) sourceFile of
             Inl e \<Rightarrow> Inl (e, disk st)
           | Inr content \<Rightarrow>
               let st1 = record_checksum options file content st in
               (case already_migrated (disk st1) targetFile content of
                  Inl e \<Rightarrow> Inl (e, disk st1)
                | Inr True \<Rightarrow> Inr st1
                | Inr False \<Rightarrow> write_target options now targetFile file stats content st1)))"

fun migrate_files ::
  "MigrationOptions \<Rightarrow> nat \<Rightarrow> string \<Rightarrow> string \<Rightarrow> string list \<Rightarrow> pass \<Rightarrow> errno \<times> filesystem + pass" where
  "migrate_files options now src tgt [] st = Inr st"
| "migrate_files options now src tgt (file # files) st =
     (case migrate_file options now src tgt file st of
        Inl e \<Rightarrow> Inl e
      | Inr st' \<Rightarrow> migrate_files options now src tgt files st')"

text \<open>The result the outer \<^verbatim>\<open>catch\<close> returns.\<close>

definition failed :: "errno \<Rightarrow> MigrationResult" where
  "failed e = \<lparr>success = False, error = Some (message e), rollbackInfo = None,
               integrityChecks = None\<rparr>"

text \<open>
  \<open>performMockMigration\<close> at the time \<open>now\<close> on the file system \<open>fs\<close>: the file
  system it leaves and the result it returns. The inner \<^verbatim>\<open>catch\<close> turns every failure
  of the access test into the permission error; the outer one returns the message of any
  other exception, with what was written before it left in place.
\<close>

definition performMockMigration ::
  "string \<Rightarrow> string \<Rightarrow> MigrationOptions \<Rightarrow> nat \<Rightarrow> filesystem \<Rightarrow> filesystem \<times> MigrationResult" where
  "performMockMigration src tgt options now fs =
     (case accessSync_W_OK fs tgt of
        Inl e \<Rightarrow>
          (fs, \<lparr>success = False,
                error = Some ''permission denied - target directory not writable'',
                rollbackInfo = None, integrityChecks = None\<rparr>)
      | Inr u \<Rightarrow>
          (case readdirSync fs src of
             Inl e \<Rightarrow> (fs, failed e)
           | Inr files \<Rightarrow>
               (case migrate_files options now src tgt files
                       \<lparr>disk = fs, written = [], sums = []\<rparr> of
                  Inl (e, fs') \<Rightarrow> (fs', failed e)
                | Inr st \<Rightarrow>
                    (disk st,
                     \<lparr>success = True, error = None,
                      rollbackInfo =
                        (if createRollbackInfo options
                         then Some \<lparr>sourceDir = src, targetDir = tgt,
                                    migratedFiles = written st, timestamp = now\<rparr>
                         else None),
                      integrityChecks =
                        (if enableIntegrityChecks options
                         then Some \<lparr>fileCount = length (written st), allChecksPassed = True,
                                    checksums = sums st\<rparr>
                         else None)\<rparr>))))"

text \<open>The loop of \<open>performMockRollback\<close> and the function itself.\<close>

fun rollback_files :: "string \<Rightarrow> string list \<Rightarrow> filesystem \<Rightarrow> errno \<times> filesystem + filesystem" where
  "rollback_files tgt [] fs = Inr fs"
| "rollback_files tgt (file # files) fs =
     (if existsSync fs (tgt, file) then
        (case unlinkSync fs (tgt, file) of
           Inl e \<Rightarrow> Inl (e, fs)
         | Inr fs' \<Rightarrow> rollback_files tgt files fs')
      else rollback_files tgt files fs)"

definition performMockRollback :: "RollbackInfo \<Rightarrow> filesystem \<Rightarrow> filesystem \<times> MigrationResult" where
  "performMockRollback info fs =
     (case rollback_files (targetDir info) (migratedFiles info) fs of
        Inl (e, fs') \<Rightarrow> (fs', failed e)
      | Inr fs' \<Rightarrow>
          (fs', \<lparr>success = True, error = None, rollbackInfo = None, integrityChecks = None\<rparr>))"

section \<open>Predicates of the statements\<close>

text \<open>Unicode scalar values: the code points a well-formed text consists of.\<close>

definition scalar :: "nat \<Rightarrow> bool" where
  "scalar c \<longleftrightarrow> c < 1114112 \<and> \<not> (55296 \<le> c \<and> c \<le> 57343)"

text \<open>
  \<open>needs_copy fs src tgt file\<close>: the entry \<open>file\<close> of the source is a regular file and
  the target has no regular file of that name holding the same text.
\<close>

definition needs_copy :: "filesystem \<Rightarrow> string \<Rightarrow> string \<Rightarrow> string \<Rightarrow> bool" where
  "needs_copy fs src tgt file \<longleftrightarrow>
     (case lookup fs (src, file) of
        Some (File sf) \<Rightarrow>
          (case lookup fs (tgt, file) of
             Some (File tf) \<Rightarrow> decode_utf8 (data tf) \<noteq> decode_utf8 (data sf)
           | _ \<Rightarrow> True)
      | _ \<Rightarrow> False)"

text \<open>
  \<open>settled fs src tgt file\<close>: the loop body passes over \<open>file\<close> without writing; the
  entry is a directory, or a readable file whose text a readable file of the target
  already holds.
\<close>

definition settled :: "filesystem \<Rightarrow> string \<Rightarrow> string \<Rightarrow> string \<Rightarrow> bool" where
  "settled fs src tgt file \<longleftrightarrow>
     (case lookup fs (src, file) of
        None \<Rightarrow> False
      | Some Directory \<Rightarrow> True
      | Some (File sf) \<Rightarrow>
          readable sf \<and>
          (case lookup fs (tgt, file) of
             Some (File tf) \<Rightarrow> readable tf \<and> decode_utf8 (data tf) = decode_utf8 (data sf)
           | _ \<Rightarrow> False))"

text \<open>
  \<open>copied fs fs' src tgt file\<close>: in \<open>fs'\<close> the target holds, under the name \<open>file\<close>,
  a regular file with the encoded text of the source file of \<open>fs\<close>.
\<close>

definition copied :: "filesystem \<Rightarrow> filesystem \<Rightarrow> string \<Rightarrow> string \<Rightarrow> string \<Rightarrow> bool" where
  "copied fs fs' s t f \<longleftrightarrow>
     (\<exists>sf tf. lookup fs (s, f) = Some (File sf) \<and> lookup fs' (t, f) = Some (File tf)
        \<and> data tf = encode_utf8 (decode_utf8 (data sf)))"

text \<open>
  What every step of a pass keeps: the source directory, every directory but the target,
  whether the target may be written to, and the entries already settled.
\<close>

definition evolves :: "string \<Rightarrow> string \<Rightarrow> filesystem \<Rightarrow> filesystem \<Rightarrow> bool" where
  "evolves s t fs fs' \<longleftrightarrow>
     fs' s = fs s \<and> (\<forall>d. d \<noteq> t \<longrightarrow> fs' d = fs d)
     \<and> accessSync_W_OK fs' t = accessSync_W_OK fs t
     \<and> (\<forall>g. settled fs s t g \<longrightarrow> settled fs' s t g)"

section \<open>Example file systems\<close>

definition plain :: "bytes \<Rightarrow> regular_file" where
  "plain b = \<lparr>data = b, atime = 1, mtime = 1, readable = True, writable = True,
              owned = True\<rparr>"

definition folder :: "(string \<times> node) list \<Rightarrow> directory" where
  "folder es = \<lparr>dir_writable = True, entries = es\<rparr>"

definition two_dirs :: "(string \<times> node) list \<Rightarrow> (string \<times> node) list \<Rightarrow> filesystem" where
  "two_dirs s t = [''source'' \<mapsto> folder s, ''target'' \<mapsto> folder t]"

definition read_only_target :: filesystem where
  "read_only_target =
     [''source'' \<mapsto> folder [(''test.md'', File (plain ''# Test content''))],
      ''target'' \<mapsto> \<lparr>dir_writable = False, entries = []\<rparr>]"

definition no_options :: MigrationOptions where
  "no_options = \<lparr>preserveOriginal = False, createRollbackInfo = False,
     enableIntegrityChecks = False, skipOnError = False, retry = False,
     preserveMetadata = False\<rparr>"

section \<open>Decoding and encoding are inverse on text\<close>

lemma div_mod_digit: "x < n \<Longrightarrow> (k * n + x) div n = k \<and> (k * n + x) mod n = (x::nat)"
  by simp

lemma digits3:
  assumes "x < 64" "y < 64"
  shows "(a * 4096 + y * 64 + x) div 4096 = a \<and> (a * 4096 + y * 64 + x) div 64 mod 64 = y
   \<and> (a * 4096 + y * 64 + x) mod 64 = (x::nat)"
proof -
  let ?c = "a * 4096 + y * 64 + x"
  have e1: "?c = a * 4096 + (y * 64 + x)" by simp
  have e2: "?c = (a * 64 + y) * 64 + x" by simp
  have l: "y * 64 + x < 4096" using assms by simp
  have "?c div 4096 = a" by (subst e1) (simp only: div_mod_digit [OF l])
  moreover have "?c div 64 = a * 64 + y" by (subst e2) (simp only: div_mod_digit [OF assms(1)])
  moreover have "?c mod 64 = x" by (subst e2) (simp only: div_mod_digit [OF assms(1)])
  moreover have "(a * 64 + y) mod 64 = y" by (simp only: div_mod_digit [OF assms(2)])
  ultimately show ?thesis by (simp only:)
qed

lemma digits4:
  assumes "x < 64" "y < 64" "z < 64"
  shows "(a * 262144 + z * 4096 + y * 64 + x) div 262144 = a
   \<and> (a * 262144 + z * 4096 + y * 64 + x) div 4096 mod 64 = z
   \<and> (a * 262144 + z * 4096 + y * 64 + x) div 64 mod 64 = y
   \<and> (a * 262144 + z * 4096 + y * 64 + x) mod 64 = (x::nat)"
proof -
  let ?c = "a * 262144 + z * 4096 + y * 64 + x"
  have l1: "y * 64 + x < 4096" using assms by simp
  have l2: "z * 4096 + (y * 64 + x) < 262144" using assms l1 by simp
  have e1: "?c = a * 262144 + (z * 4096 + (y * 64 + x))" by simp
  have e2: "?c = (a * 64 + z) * 4096 + (y * 64 + x)" by simp
  have e3: "?c = ((a * 64 + z) * 64 + y) * 64 + x" by simp
  have "?c div 262144 = a" by (subst e1) (simp only: div_mod_digit [OF l2])
  moreover have "?c div 4096 = a * 64 + z" by (subst e2) (simp only: div_mod_digit [OF l1])
  moreover have "?c div 64 = (a * 64 + z) * 64 + y" by (subst e3) (simp only: div_mod_digit [OF assms(1)])
  moreover have "?c mod 64 = x" by (subst e3) (simp only: div_mod_digit [OF assms(1)])
  moreover have "(a * 64 + z) mod 64 = z" by (simp only: div_mod_digit [OF assms(3)])
  moreover have "((a * 64 + z) * 64 + y) mod 64 = y" by (simp only: div_mod_digit [OF assms(2)])
  ultimately show ?thesis by (simp only:)
qed

lemma three_byte_range:
  assumes "a \<le> 15" "y < 64" "x < 64" "a = 0 \<longrightarrow> 32 \<le> y"
  shows "2048 \<le> a * 4096 + y * 64 + x" "a * 4096 + y * 64 + x < (65536::nat)"
  using assms by (cases "a = 0"; simp)+

lemma four_byte_range:
  assumes  "z < 64" "y < 64" "x < 64" "a = 0 \<longrightarrow> 16 \<le> z"
  shows "65536 \<le> a * 262144 + z * 4096 + y * 64 + (x::nat)"
  using assms by (cases "a = 0"; simp)

lemma scalar_two: "a \<le> 31 \<Longrightarrow> x < 64 \<Longrightarrow> scalar (a * 64 + x)"
  unfolding scalar_def by simp

lemma scalar_three:
  assumes "a \<le> 15" "y < 64" "x < 64" "a = 13 \<longrightarrow> y < 32"
  shows "scalar (a * 4096 + y * 64 + x)"
proof -
  consider "a \<le> 12" | "a = 13" | "14 \<le> a" by linarith
  then show ?thesis
    using assms unfolding scalar_def by cases simp_all
qed

lemma scalar_four:
  assumes "a \<le> 4" "z < 64" "y < 64" "x < 64" "a = 4 \<longrightarrow> z < 16" "a = 0 \<longrightarrow> 16 \<le> z"
  shows "scalar (a * 262144 + z * 4096 + y * 64 + x)"
proof -
  have "65536 \<le> a * 262144 + z * 4096 + y * 64 + x"
    using assms by (intro four_byte_range) simp_all
  moreover have "a * 262144 + z * 4096 + y * 64 + x < 1114112"
  proof (cases "a = 4")
    case True
    then show ?thesis using assms by simp
  next
    case False
    then have "a \<le> 3" using assms(1) by simp
    then show ?thesis using assms by simp
  qed
  ultimately show ?thesis unfolding scalar_def by simp
qed

lemma utf8_decode1_one: "b0 < 128 \<Longrightarrow> utf8_decode1 b0 r = (Some b0, r)"
  by (simp add: utf8_decode1_def)

lemma utf8_decode1_two:
  "2 \<le> a \<Longrightarrow> a \<le> 31 \<Longrightarrow> x < 64 \<Longrightarrow>
   utf8_decode1 (192 + a) ((128 + x) # r) = (Some (a * 64 + x), r)"
  by (simp add: utf8_decode1_def is_cont_def)

lemma utf8_decode1_three:
  "a \<le> 15 \<Longrightarrow> y < 64 \<Longrightarrow> x < 64 \<Longrightarrow> (a = 0 \<longrightarrow> 32 \<le> y) \<Longrightarrow> (a = 13 \<longrightarrow> y < 32) \<Longrightarrow>
   utf8_decode1 (224 + a) ((128 + y) # (128 + x) # r) = (Some (a * 4096 + y * 64 + x), r)"
  by (auto simp add: utf8_decode1_def is_cont_def second_ok_def)

lemma utf8_decode1_four:
  "a \<le> 4 \<Longrightarrow> z < 64 \<Longrightarrow> y < 64 \<Longrightarrow> x < 64 \<Longrightarrow> (a = 0 \<longrightarrow> 16 \<le> z) \<Longrightarrow> (a = 4 \<longrightarrow> z < 16) \<Longrightarrow>
   utf8_decode1 (240 + a) ((128 + z) # (128 + y) # (128 + x) # r)
     = (Some (a * 262144 + z * 4096 + y * 64 + x), r)"
  by (auto simp add: utf8_decode1_def is_cont_def second_ok_def)

lemma utf8_of_cp_two:
  "2 \<le> a \<Longrightarrow> a \<le> 31 \<Longrightarrow> x < 64 \<Longrightarrow> utf8_of_cp (a * 64 + x) = [192 + a, 128 + x]"
  by (simp add: utf8_of_cp_def)

lemma utf8_of_cp_three:
  assumes "a \<le> 15" "y < 64" "x < 64" "a = 0 \<longrightarrow> 32 \<le> y"
  shows "utf8_of_cp (a * 4096 + y * 64 + x) = [224 + a, 128 + y, 128 + x]"
  using three_byte_range [OF assms] digits3 [OF assms(3) assms(2), of a] by (simp add: utf8_of_cp_def)

lemma utf8_of_cp_four:
  assumes "z < 64" "y < 64" "x < 64" "a = 0 \<longrightarrow> 16 \<le> z"
  shows "utf8_of_cp (a * 262144 + z * 4096 + y * 64 + x) = [240 + a, 128 + z, 128 + y, 128 + x]"
  using four_byte_range [OF assms] digits4 [OF assms(3) assms(2) assms(1), of a] by (simp add: utf8_of_cp_def)

text \<open>A decoded code point is a scalar value, and encodes to the bytes it was read from.\<close>

lemma utf8_decode1_Some:
  assumes "utf8_decode1 b0 bs = (Some c, rest)"
  shows "scalar c \<and> b0 # bs = utf8_of_cp c @ rest"
proof -
  consider (one) "b0 < 128" | (two) "194 \<le> b0" "b0 \<le> 223" | (three) "224 \<le> b0" "b0 \<le> 239"
    | (four) "240 \<le> b0" "b0 \<le> 244" | (bad) "128 \<le> b0" "b0 < 194 \<or> 244 < b0"
    by linarith
  then show ?thesis
  proof cases
    case one
    with assms show ?thesis
      by (simp add: utf8_decode1_def scalar_def utf8_of_cp_def)
  next
    case two
    with assms obtain b1 where b: "bs = b1 # rest" "is_cont b1" "c = (b0 - 192) * 64 + (b1 - 128)"
      by (auto simp: utf8_decode1_def split: list.splits if_splits)
    define a x where "a = b0 - 192" and "x = b1 - 128"
    have e: "b0 = 192 + a" "b1 = 128 + x" "2 \<le> a" "a \<le> 31" "x < 64" "c = a * 64 + x"
      using two b by (auto simp add: a_def x_def is_cont_def)
    show ?thesis
      using scalar_two [OF e(4) e(5)] utf8_of_cp_two [OF e(3) e(4) e(5)] by (simp add: e b(1))
  next
    case three
    with assms obtain b1 b2 where b: "bs = b1 # b2 # rest" "second_ok b0 b1" "is_cont b2"
        "c = (b0 - 224) * 4096 + (b1 - 128) * 64 + (b2 - 128)"
      by (auto simp: utf8_decode1_def split: list.splits if_splits)
    define a y x where "a = b0 - 224" and "y = b1 - 128" and "x = b2 - 128"
    have e: "b0 = 224 + a" "b1 = 128 + y" "b2 = 128 + x" "a \<le> 15" "y < 64" "x < 64"
        "a = 0 \<longrightarrow> 32 \<le> y" "a = 13 \<longrightarrow> y < 32" "c = a * 4096 + y * 64 + x"
      using three b by (auto simp add: a_def y_def x_def is_cont_def second_ok_def split: if_splits)
    show ?thesis
      using scalar_three [OF e(4) e(5) e(6) e(8)] utf8_of_cp_three [OF e(4) e(5) e(6) e(7)]
      by (simp add: e(1,2,3,9) b(1))
  next
    case four
    with assms obtain b1 b2 b3 where b: "bs = b1 # b2 # b3 # rest" "second_ok b0 b1" "is_cont b2"
        "is_cont b3" "c = (b0 - 240) * 262144 + (b1 - 128) * 4096 + (b2 - 128) * 64 + (b3 - 128)"
      by (auto simp: utf8_decode1_def split: list.splits if_splits)
    define a z y x where "a = b0 - 240" and "z = b1 - 128" and "y = b2 - 128" and "x = b3 - 128"
    have e: "b0 = 240 + a" "b1 = 128 + z" "b2 = 128 + y" "b3 = 128 + x" "a \<le> 4" "z < 64"
        "y < 64" "x < 64" "a = 0 \<longrightarrow> 16 \<le> z" "a = 4 \<longrightarrow> z < 16"
        "c = a * 262144 + z * 4096 + y * 64 + x"
      using four b by (auto simp add: a_def z_def y_def x_def is_cont_def second_ok_def split: if_splits)
    show ?thesis
      using scalar_four [OF e(5) e(6) e(7) e(8) e(10) e(9)] utf8_of_cp_four [OF e(6) e(7) e(8) e(9)]
      by (simp add: e(1,2,3,4,11) b(1))
  next
    case bad
    with assms show ?thesis
      by (auto simp: utf8_decode1_def)
  qed
qed

lemma code_point_digits3: "(c::nat) = (c div 4096) * 4096 + (c div 64 mod 64) * 64 + c mod 64"
proof -
  define A B C where "A = c div 4096" and "B = c div 64 mod 64" and "C = c mod 64"
  have 1: "c = (c div 64) * 64 + C" by (simp add: C_def)
  have 2: "c div 64 = (c div 64 div 64) * 64 + B" by (simp add: B_def)
  have 3: "c div 64 div 64 = A" by (simp add: A_def div_mult2_eq [symmetric])
  have "c = (A * 64 + B) * 64 + C" using 1 2 3 by metis
  also have "\<dots> = A * 4096 + B * 64 + C" by simp
  finally show ?thesis by (simp only: A_def B_def C_def)
qed

lemma code_point_digits4:
  "(c::nat) = (c div 262144) * 262144 + (c div 4096 mod 64) * 4096 + (c div 64 mod 64) * 64 + c mod 64"
proof -
  define A B C D where "A = c div 262144" and "B = c div 4096 mod 64" and "C = c div 64 mod 64"
    and "D = c mod 64"
  have 1: "c = (c div 64) * 64 + D" by (simp add: D_def)
  have 2: "c div 64 = (c div 64 div 64) * 64 + C" by (simp add: C_def)
  have 3: "c div 64 div 64 = c div 4096" by (simp add: div_mult2_eq [symmetric])
  have 4: "c div 4096 = (c div 4096 div 64) * 64 + B" by (simp add: B_def)
  have 5: "c div 4096 div 64 = A" by (simp add: A_def div_mult2_eq [symmetric])
  have "c = (((A * 64 + B) * 64) + C) * 64 + D" using 1 2 3 4 5 by metis
  also have "\<dots> = A * 262144 + B * 4096 + C * 64 + D" by simp
  finally show ?thesis by (simp only: A_def B_def C_def D_def)
qed

text \<open>The encoding of a scalar value decodes to it.\<close>

lemma utf8_decode1_of_cp:
  assumes "scalar c"
  shows "\<exists>b0 bs. utf8_of_cp c = b0 # bs \<and> utf8_decode1 b0 (bs @ rest) = (Some c, rest)"
proof -
  consider (one) "c < 128" | (two) "128 \<le> c" "c < 2048" | (three) "2048 \<le> c" "c < 65536"
    | (four) "65536 \<le> c"
    by linarith
  then show ?thesis
  proof cases
    case one
    then show ?thesis by (simp add: utf8_of_cp_def utf8_decode1_one)
  next
    case two
    define a x where "a = c div 64" and "x = c mod 64"
    have e: "c = a * 64 + x" "x < 64" by (simp_all add: a_def x_def)
    have a: "2 \<le> a" "a \<le> 31" using two e by linarith+
    show ?thesis
      using utf8_of_cp_two [OF a e(2)] utf8_decode1_two [OF a e(2)] by (simp add: e(1))
  next
    case three
    define a y x where "a = c div 4096" and "y = c div 64 mod 64" and "x = c mod 64"
    have e: "c = a * 4096 + y * 64 + x" "y < 64" "x < 64"
      using code_point_digits3 [of c] by (simp_all add: a_def y_def x_def)
    have ns: "c < 55296 \<or> 57343 < c" using assms unfolding scalar_def by linarith
    have a: "a \<le> 15" "a = 0 \<longrightarrow> 32 \<le> y" "a = 13 \<longrightarrow> y < 32"
      using three e ns by linarith+
    show ?thesis
      using utf8_of_cp_three [OF a(1) e(2) e(3) a(2)] utf8_decode1_three [OF a(1) e(2) e(3) a(2) a(3)]
      by (simp add: e(1))
  next
    case four
    define a z y x where "a = c div 262144" and "z = c div 4096 mod 64" and "y = c div 64 mod 64"
      and "x = c mod 64"
    have e: "c = a * 262144 + z * 4096 + y * 64 + x" "z < 64" "y < 64" "x < 64"
      using code_point_digits4 [of c] by (simp_all add: a_def z_def y_def x_def)
    have lt: "c < 1114112" using assms unfolding scalar_def by simp
    have a: "a \<le> 4" "a = 0 \<longrightarrow> 16 \<le> z" "a = 4 \<longrightarrow> z < 16"
      using four e lt by linarith+
    show ?thesis
      using utf8_of_cp_four [OF e(2) e(3) e(4) a(2)] utf8_decode1_four [OF a(1) e(2) e(3) e(4) a(2) a(3)]
      by (simp add: e(1))
  qed
qed

lemma utf8_decode_raw_encoded:
  "list_all scalar cs \<Longrightarrow> utf8_decode_raw (concat (map utf8_of_cp cs)) = map Some cs"
proof (induction cs)
  case Nil
  show ?case by simp
next
  case (Cons c cs)
  then have "scalar c" and rest: "utf8_decode_raw (concat (map utf8_of_cp cs)) = map Some cs"
    by simp_all
  from utf8_decode1_of_cp [OF \<open>scalar c\<close>, of "concat (map utf8_of_cp cs)"]
  obtain b0 bs where "utf8_of_cp c = b0 # bs"
    "utf8_decode1 b0 (bs @ concat (map utf8_of_cp cs)) = (Some c, concat (map utf8_of_cp cs))"
    by blast
  then show ?case by (simp add: rest)
qed

lemma scalar_replacement: "scalar replacement"
  by (simp add: scalar_def replacement_def)

lemma utf8_decode_scalar: "list_all scalar (utf8_decode bs)"
proof (induction bs rule: utf8_decode_raw.induct)
  case 1
  show ?case by (simp add: utf8_decode_def)
next
  case (2 b0 bs)
  obtain r rest where d: "utf8_decode1 b0 bs = (r, rest)" by (cases "utf8_decode1 b0 bs")
  have "scalar (case r of None \<Rightarrow> replacement | Some c \<Rightarrow> c)"
    using d utf8_decode1_Some [of b0 bs] by (cases r) (simp_all add: scalar_replacement)
  then show ?case using 2 d by (simp add: utf8_decode_def)
qed

lemma utf8_encode_decoded:
  "None \<notin> set (utf8_decode_raw bs) \<Longrightarrow> concat (map utf8_of_cp (utf8_decode bs)) = bs"
proof (induction bs rule: utf8_decode_raw.induct)
  case 1
  show ?case by (simp add: utf8_decode_def)
next
  case (2 b0 bs)
  obtain r rest where d: "utf8_decode1 b0 bs = (r, rest)" by (cases "utf8_decode1 b0 bs")
  from 2(2) d obtain c where r: "r = Some c" and nn: "None \<notin> set (utf8_decode_raw rest)"
    by (cases r) simp_all
  have "b0 # bs = utf8_of_cp c @ rest" using utf8_decode1_Some d r by blast
  moreover have "concat (map utf8_of_cp (utf8_decode rest)) = rest"
    using 2(1) nn d by simp
  moreover have "utf8_decode (b0 # bs) = c # utf8_decode rest"
    using d r by (simp add: utf8_decode_def)
  ultimately show ?case by simp
qed

lemma utf16_decode_of_cp:
  assumes "scalar c"
  shows "utf16_decode (utf16_of_cp c @ r) = c # utf16_decode r"
proof (cases "c < 65536")
  case True
  then have "\<not> is_high c" "lone c = c"
    using assms by (auto simp: scalar_def is_high_def is_low_def lone_def)
  then show ?thesis using True by (cases r) (simp_all add: utf16_of_cp_def)
next
  case False
  define k where "k = c - 65536"
  have k: "c = 65536 + k" "k < 1048576" using False assms by (simp_all add: k_def scalar_def)
  define h l where "h = k div 1024" and "l = k mod 1024"
  have hl: "h < 1024" "l < 1024" "k = h * 1024 + l"
    using k(2) by (simp_all add: h_def l_def)
  have "utf16_of_cp c = [55296 + h, 56320 + l]"
    using False by (simp add: utf16_of_cp_def k_def h_def l_def)
  then show ?thesis
    using hl by (simp add: k(1) is_high_def is_low_def)
qed

lemma utf16_decode_encoded:
  "list_all scalar cs \<Longrightarrow> utf16_decode (concat (map utf16_of_cp cs)) = cs"
  by (induction cs) (simp_all add: utf16_decode_of_cp)

lemma utf16_units: "scalar c \<Longrightarrow> u \<in> set (utf16_of_cp c) \<Longrightarrow> u < 65536"
proof -
  assume "scalar c" "u \<in> set (utf16_of_cp c)"
  moreover have "(c - 65536) div 1024 < 1024" if "c < 1114112"
    using that by simp
  moreover have "(c - 65536) mod 1024 < 1024" by simp
  ultimately show ?thesis
    by (auto simp: utf16_of_cp_def scalar_def split: if_splits)
qed

lemma utf8_bytes: "scalar c \<Longrightarrow> b \<in> set (utf8_of_cp c) \<Longrightarrow> b < 256"
proof -
  assume s: "scalar c" and b: "b \<in> set (utf8_of_cp c)"
  have m: "\<And>n::nat. n mod 64 < 64" by simp
  have "c div 64 < 32" if "c < 2048" using that by simp
  moreover have "c div 4096 < 16" if "c < 65536" using that by simp
  moreover have "c div 262144 < 16" if "c < 1114112" using that by simp
  ultimately show ?thesis
    using s b m [of c] m [of "c div 64"] m [of "c div 4096"]
    by (auto simp: utf8_of_cp_def scalar_def split: if_splits)
qed

lemma utf8_decode_encoded:
  "list_all scalar cs \<Longrightarrow> utf8_decode (concat (map utf8_of_cp cs)) = cs"
  by (simp add: utf8_decode_def utf8_decode_raw_encoded comp_def)

lemma unat_of_nat_units:
  "\<forall>u \<in> set us. u < 65536 \<Longrightarrow> map unat (map of_nat us :: 16 word list) = us"
  by (induction us) (simp_all add: unat_of_nat)

lemma of_char_char_of_bytes:
  "\<forall>b \<in> set bs. b < 256 \<Longrightarrow> map of_char (map char_of bs) = (bs :: nat list)"
  by (induction bs) simp_all

lemma encode_decode_utf8:
  "encode_utf8 (decode_utf8 b) = map char_of (concat (map utf8_of_cp (utf8_decode (map of_char b))))"
proof -
  let ?cs = "utf8_decode (map of_char b)"
  have sc: "list_all scalar ?cs" by (rule utf8_decode_scalar)
  then have "\<forall>u \<in> set (concat (map utf16_of_cp ?cs)). u < 65536"
    by (auto simp: list_all_iff dest: utf16_units)
  then have "map unat (decode_utf8 b) = concat (map utf16_of_cp ?cs)"
    unfolding decode_utf8_def by (rule unat_of_nat_units)
  then show ?thesis
    by (simp add: encode_utf8_def utf16_decode_encoded [OF sc])
qed

lemma decode_encode_decode: "decode_utf8 (encode_utf8 (decode_utf8 b)) = decode_utf8 b"
proof -
  let ?cs = "utf8_decode (map of_char b)"
  have sc: "list_all scalar ?cs" by (rule utf8_decode_scalar)
  then have "\<forall>x \<in> set (concat (map utf8_of_cp ?cs)). x < 256"
    by (auto simp: list_all_iff dest: utf8_bytes)
  then have "map of_char (encode_utf8 (decode_utf8 b)) = concat (map utf8_of_cp ?cs)"
    unfolding encode_decode_utf8 by (rule of_char_char_of_bytes)
  moreover have "utf8_decode (concat (map utf8_of_cp ?cs)) = ?cs"
    using sc by (rule utf8_decode_encoded)
  ultimately show ?thesis
    by (simp add: decode_utf8_def)
qed

lemma encode_decode_well_formed:
  "well_formed_utf8 b \<Longrightarrow> encode_utf8 (decode_utf8 b) = b"
  by (simp add: encode_decode_utf8 well_formed_utf8_def utf8_encode_decoded comp_def)

section \<open>The file system calls\<close>

lemma lookup_put:
  "lookup (put fs p n) q = (if q = p \<and> fs (fst p) \<noteq> None then Some n else lookup fs q)"
  by (cases p; cases q) (auto simp: lookup_def put_def update_conv' split: option.splits)

lemma put_other_dir: "d \<noteq> fst p \<Longrightarrow> put fs p n d = fs d"
  by (simp add: put_def split: option.splits)

lemma writeFileSync_Inr:
  assumes "writeFileSync now fs p s = Inr fs'"
  shows "\<exists>f. fs' = put fs p (File f) \<and> data f = encode_utf8 s \<and> fs (fst p) \<noteq> None
             \<and> (case lookup fs p of None \<Rightarrow> readable f | Some Directory \<Rightarrow> False
                 | Some (File g) \<Rightarrow> readable f = readable g)"
  using assms
  by (auto simp: writeFileSync_def lookup_def split: option.splits node.splits if_splits)

lemma utimesSync_Inr:
  assumes "utimesSync fs p a m = Inr fs'" "lookup fs p = Some (File f)"
  shows "fs' = put fs p (File (f\<lparr>atime := a, mtime := m\<rparr>))"
  using assms by (simp add: utimesSync_def split: if_splits)

lemma settled_not_needs_copy: "settled fs s t f \<Longrightarrow> \<not> needs_copy fs s t f"
  by (auto simp: settled_def needs_copy_def split: option.splits node.splits)

lemma needs_copy_neq: "needs_copy fs s t f \<Longrightarrow> s \<noteq> t"
  by (auto simp: needs_copy_def split: option.splits node.splits)

subsection \<open>The body of the migration loop\<close>


lemma record_checksum_simps [simp]:
  "disk (record_checksum opts f c st) = disk st"
  "written (record_checksum opts f c st) = written st"
  by (simp_all add: record_checksum_def)

lemma write_target_Inr:
  assumes "write_target opts now p f stats c st = Inr st'"
  shows "written st' = written st @ [f] \<and> sums st' = sums st \<and> disk st (fst p) \<noteq> None
       \<and> (\<exists>tf. disk st' = put (disk st) p (File tf) \<and> data tf = encode_utf8 c
             \<and> (case lookup (disk st) p of None \<Rightarrow> readable tf | Some Directory \<Rightarrow> False
                 | Some (File g) \<Rightarrow> readable tf = readable g))"
proof -
  from assms obtain fs2 where w: "writeFileSync now (disk st) p c = Inr fs2"
    by (auto simp: write_target_def split: sum.splits)
  from writeFileSync_Inr [OF w] obtain tf where tf: "fs2 = put (disk st) p (File tf)"
    "data tf = encode_utf8 c" "disk st (fst p) \<noteq> None"
    "(case lookup (disk st) p of None \<Rightarrow> readable tf | Some Directory \<Rightarrow> False
                 | Some (File g) \<Rightarrow> readable tf = readable g)"
    by blast
  have l: "lookup fs2 p = Some (File tf)" using tf(1,3) by (simp add: lookup_put)
  have pp: "put fs2 p n = put (disk st) p n" for n
    using tf(3) by (auto simp: tf(1) put_def fun_eq_iff split: option.splits)
  show ?thesis
  proof (cases "preserveMetadata opts")
    case False
    with assms w tf show ?thesis by (auto simp: write_target_def Let_def)
  next
    case True
    with assms w obtain fs3 where u: "utimesSync fs2 p (atime stats) (mtime stats) = Inr fs3"
      and st': "disk st' = fs3" "written st' = written st @ [f]" "sums st' = sums st"
      by (auto simp add: write_target_def Let_def split: sum.splits)
    have "fs3 = put (disk st) p (File (tf\<lparr>atime := atime stats, mtime := mtime stats\<rparr>))"
      using utimesSync_Inr [OF u l] by (simp add: pp)
    then show ?thesis using st' tf by (auto split: option.splits node.splits)
  qed
qed

lemma write_target_Inl:
  assumes "write_target opts now p f stats c st = Inl (e, fs')"
  shows "fs' = disk st \<or> (\<exists>tf. fs' = put (disk st) p (File tf))"
proof (cases "writeFileSync now (disk st) p c")
  case (Inl a)
  with assms show ?thesis by (simp add: write_target_def)
next
  case (Inr fs2)
  from writeFileSync_Inr [OF Inr] obtain tf where "fs2 = put (disk st) p (File tf)"
    by blast
  moreover from assms Inr have "fs' = fs2"
    by (auto simp add: write_target_def Let_def split: if_splits sum.splits)
  ultimately show ?thesis by blast
qed

lemma migrate_file_settled:
  assumes "settled (disk st) s t f"
  shows "\<exists>st'. migrate_file opts now s t f st = Inr st' \<and> disk st' = disk st
              \<and> written st' = written st"
  using assms
  by (auto simp: settled_def migrate_file_def statSync_def readFileSync_def already_migrated_def
      existsSync_def split: option.splits node.splits)

text \<open>
  A step that ends either passes over a settled entry and leaves the file system as it
  is, or writes the encoded source text to the target and records the name.
\<close>

lemma migrate_file_Inr:
  assumes "migrate_file opts now s t f st = Inr st'"
  shows "(settled (disk st) s t f \<and> disk st' = disk st \<and> written st' = written st)
       \<or> (needs_copy (disk st) s t f \<and> written st' = written st @ [f]
          \<and> (\<exists>sf tf. lookup (disk st) (s, f) = Some (File sf) \<and> readable sf
                \<and> disk st' = put (disk st) (t, f) (File tf) \<and> disk st t \<noteq> None
                \<and> data tf = encode_utf8 (decode_utf8 (data sf)) \<and> readable tf))"
proof (cases "lookup (disk st) (s, f)")
  case None
  with assms show ?thesis by (simp add: migrate_file_def statSync_def)
next
  case (Some n)
  show ?thesis
  proof (cases n)
    case Directory
    with Some assms show ?thesis
      by (auto simp: migrate_file_def statSync_def settled_def)
  next
    case (File sf)
    note src = Some [unfolded File]
    from assms src have r: "readable sf"
      by (auto simp: migrate_file_def statSync_def readFileSync_def split: if_splits)
    let ?content = "decode_utf8 (data sf)"
    let ?st1 = "record_checksum opts f ?content st"
    have d1: "disk ?st1 = disk st" "written ?st1 = written st" by simp_all
    from assms src r have m: "(case already_migrated (disk st) (t, f) ?content of
                  Inl e \<Rightarrow> Inl (e, disk ?st1)
                | Inr True \<Rightarrow> Inr ?st1
                | Inr False \<Rightarrow> write_target opts now (t, f) f sf ?content ?st1) = Inr st'"
      by (simp add: migrate_file_def statSync_def readFileSync_def Let_def)
    show ?thesis
    proof (cases "already_migrated (disk st) (t, f) ?content")
      case (Inl e)
      with m show ?thesis by simp
    next
      case (Inr b)
      show ?thesis
      proof (cases b)
        case True
        with Inr m have "st' = ?st1" by simp
        moreover have "settled (disk st) s t f"
          using Inr True src r
          by (auto simp: already_migrated_def settled_def existsSync_def readFileSync_def
              split: if_splits option.splits node.splits sum.splits)
        ultimately show ?thesis by simp
      next
        case False
        with Inr m have w: "write_target opts now (t, f) f sf ?content ?st1 = Inr st'" by simp
        have nc: "needs_copy (disk st) s t f"
          using Inr False src
          by (auto simp: already_migrated_def needs_copy_def existsSync_def readFileSync_def
              split: if_splits option.splits node.splits sum.splits)
        have rd: "lookup (disk st) (t, f) = Some (File g) \<Longrightarrow> readable g" for g
          using Inr
          by (auto simp: already_migrated_def existsSync_def readFileSync_def
              split: if_splits)
        from write_target_Inr [OF w] obtain tf where tf:
          "written st' = written st @ [f]" "disk st t \<noteq> None"
          "disk st' = put (disk st) (t, f) (File tf)"
          "data tf = encode_utf8 ?content"
          "(case lookup (disk st) (t, f) of None \<Rightarrow> readable tf | Some Directory \<Rightarrow> False
                 | Some (File g) \<Rightarrow> readable tf = readable g)"
          by auto
        have "readable tf"
          using tf(5) rd by (auto split: option.splits node.splits)
        with tf nc src r show ?thesis by blast
      qed
    qed
  qed
qed


subsection \<open>The migration loop\<close>


lemma evolves_refl: "evolves s t fs fs"
  by (simp add: evolves_def)

lemma evolves_trans: "evolves s t fs fs' \<Longrightarrow> evolves s t fs' fs'' \<Longrightarrow> evolves s t fs fs''"
  by (simp add: evolves_def)

lemma accessSync_put: "accessSync_W_OK (put fs p n) d = accessSync_W_OK fs d"
  by (auto simp: accessSync_W_OK_def put_def split: option.splits)

lemma lookup_put_other: "g \<noteq> f \<Longrightarrow> lookup (put fs (t, f) n) (d, g) = lookup fs (d, g)"
  by (simp add: lookup_put)

lemma settled_put:
  assumes "settled fs s t g" "g \<noteq> f"
  shows "settled (put fs (t, f) n) s t g"
  using assms(1) unfolding settled_def lookup_put_other [OF assms(2)] .

lemma needs_copy_put:
  assumes "g \<noteq> f"
  shows "needs_copy (put fs (t, f) n) s t g = needs_copy fs s t g"
  unfolding needs_copy_def lookup_put_other [OF assms] ..

lemma migrate_file_after:
  assumes "migrate_file opts now s t f st = Inr st'"
  shows "settled (disk st') s t f"
  using migrate_file_Inr [OF assms]
proof (elim disjE conjE exE)
  assume "settled (disk st) s t f" "disk st' = disk st"
  then show ?thesis by simp
next
  fix sf tf
  assume a: "needs_copy (disk st) s t f" "lookup (disk st) (s, f) = Some (File sf)" "readable sf"
    "disk st' = put (disk st) (t, f) (File tf)" "disk st t \<noteq> None"
    "data tf = encode_utf8 (decode_utf8 (data sf))" "readable tf"
  have "s \<noteq> t" using a(1) by (rule needs_copy_neq)
  then show ?thesis
    using a by (simp add: settled_def lookup_put decode_encode_decode)
qed

lemma evolves_put:
  assumes "needs_copy fs s t f"
  shows "evolves s t fs (put fs (t, f) n)"
proof -
  have n: "s \<noteq> t" using assms by (rule needs_copy_neq)
  have "settled (put fs (t, f) n) s t g" if g: "settled fs s t g" for g
  proof (cases "g = f")
    case True
    with g assms show ?thesis by (simp add: settled_not_needs_copy)
  next
    case False
    with g show ?thesis by (simp add: settled_put)
  qed
  then show ?thesis
    using n by (simp add: evolves_def put_other_dir accessSync_put)
qed

lemma migrate_file_evolves:
  assumes "migrate_file opts now s t f st = Inr st'"
  shows "evolves s t (disk st) (disk st')"
  using migrate_file_Inr [OF assms]
proof (elim disjE conjE exE)
  assume "disk st' = disk st"
  then show ?thesis by (simp add: evolves_refl)
next
  fix sf tf
  assume a: "needs_copy (disk st) s t f" "disk st' = put (disk st) (t, f) (File tf)"
  show ?thesis unfolding a(2) using a(1) by (rule evolves_put)
qed

text \<open>
  A step that throws leaves the file system as it is, or with the target written when it
  is \<^verbatim>\<open>utimesSync\<close> that throws.
\<close>

lemma migrate_file_Inl_evolves:
  assumes "migrate_file opts now s t f st = Inl (e, fs')"
  shows "evolves s t (disk st) fs'"
proof (cases "lookup (disk st) (s, f)")
  case None
  with assms show ?thesis by (simp add: migrate_file_def statSync_def evolves_refl)
next
  case (Some n)
  show ?thesis
  proof (cases n)
    case Directory
    with Some assms show ?thesis by (simp add: migrate_file_def statSync_def)
  next
    case (File sf)
    note src = Some [unfolded File]
    show ?thesis
    proof (cases "readable sf")
      case False
      with assms src show ?thesis
        by (simp add: migrate_file_def statSync_def readFileSync_def evolves_refl)
    next
      case True
      let ?content = "decode_utf8 (data sf)"
      let ?st1 = "record_checksum opts f ?content st"
      from assms src True have m: "(case already_migrated (disk st) (t, f) ?content of
                  Inl e \<Rightarrow> Inl (e, disk ?st1)
                | Inr True \<Rightarrow> Inr ?st1
                | Inr False \<Rightarrow> write_target opts now (t, f) f sf ?content ?st1) = Inl (e, fs')"
        by (simp add: migrate_file_def statSync_def readFileSync_def Let_def)
      show ?thesis
      proof (cases "already_migrated (disk st) (t, f) ?content")
        case (Inl a)
        with m show ?thesis by (auto simp: evolves_refl)
      next
        case (Inr b)
        show ?thesis
        proof (cases b)
          case True
          with Inr m show ?thesis by simp
        next
          case False
          with Inr m have w: "write_target opts now (t, f) f sf ?content ?st1 = Inl (e, fs')"
            by simp
          have nc: "needs_copy (disk st) s t f"
            using Inr False src
            by (auto simp: already_migrated_def needs_copy_def existsSync_def readFileSync_def
                split: if_splits option.splits node.splits sum.splits)
          from write_target_Inl [OF w] show ?thesis
            using evolves_put [OF nc] by (auto simp: evolves_refl)
        qed
      qed
    qed
  qed
qed

lemma migrate_files_evolves:
  "migrate_files opts now s t files st = Inr st' \<Longrightarrow> evolves s t (disk st) (disk st')"
  "migrate_files opts now s t files st = Inl (e, fs') \<Longrightarrow> evolves s t (disk st) fs'"
proof (induction files arbitrary: st)
  case Nil
  { case 1 then show ?case by (simp add: evolves_refl) }
  { case 2 then show ?case by simp }
next
  case (Cons f files)
  { case 1
    then obtain st1 where s: "migrate_file opts now s t f st = Inr st1"
      "migrate_files opts now s t files st1 = Inr st'"
      by (auto split: sum.splits)
    show ?case
      using migrate_file_evolves [OF s(1)] Cons.IH(1) [OF s(2)] by (rule evolves_trans) }
  { case 2
    show ?case
    proof (cases "migrate_file opts now s t f st")
      case (Inl a)
      with 2 have "migrate_file opts now s t f st = Inl (e, fs')" by simp
      then show ?thesis by (rule migrate_file_Inl_evolves)
    next
      case (Inr st1)
      with 2 have "migrate_files opts now s t files st1 = Inl (e, fs')" by simp
      then show ?thesis
        using migrate_file_evolves [OF Inr] Cons.IH(2) evolves_trans by blast
    qed }
qed

lemma migrate_files_after:
  "migrate_files opts now s t files st = Inr st' \<Longrightarrow> f \<in> set files \<Longrightarrow> settled (disk st') s t f"
proof (induction files arbitrary: st)
  case Nil
  then show ?case by simp
next
  case (Cons g files)
  then obtain st1 where s: "migrate_file opts now s t g st = Inr st1"
    "migrate_files opts now s t files st1 = Inr st'"
    by (auto split: sum.splits)
  show ?case
  proof (cases "f \<in> set files")
    case True
    with Cons.IH s(2) show ?thesis by blast
  next
    case False
    with Cons.prems(2) have "f = g" by simp
    then have "settled (disk st1) s t f" using migrate_file_after [OF s(1)] by simp
    then show ?thesis
      using migrate_files_evolves(1) [OF s(2)] by (simp add: evolves_def)
  qed
qed

lemma migrate_files_settled:
  "\<forall>f \<in> set files. settled (disk st) s t f \<Longrightarrow>
   \<exists>st'. migrate_files opts now s t files st = Inr st' \<and> disk st' = disk st
         \<and> written st' = written st"
proof (induction files arbitrary: st)
  case Nil
  then show ?case by simp
next
  case (Cons f files)
  then have "settled (disk st) s t f" by simp
  from migrate_file_settled [OF this, of opts now]
  obtain st1 where s: "migrate_file opts now s t f st = Inr st1" "disk st1 = disk st"
    "written st1 = written st"
    by blast
  with Cons.prems have "\<forall>f \<in> set files. settled (disk st1) s t f" by simp
  from Cons.IH [OF this] s show ?case by auto
qed

lemma evolves_source: "evolves s t fs fs' \<Longrightarrow> lookup fs' (s, f) = lookup fs (s, f)"
  by (simp add: evolves_def lookup_def)

lemma migrate_file_changes:
  assumes "migrate_file opts now s t f st = Inr st'"
  shows "\<exists>ws. written st' = written st @ ws \<and> set ws \<subseteq> {f}
          \<and> (\<forall>g. g \<notin> set ws \<longrightarrow> lookup (disk st') (t, g) = lookup (disk st) (t, g))
          \<and> (\<forall>g \<in> set ws. copied (disk st) (disk st') s t g)"
  using migrate_file_Inr [OF assms]
proof (elim disjE conjE exE)
  assume "disk st' = disk st" "written st' = written st"
  then show ?thesis by simp
next
  fix sf tf
  assume a: "written st' = written st @ [f]" "lookup (disk st) (s, f) = Some (File sf)"
    "disk st' = put (disk st) (t, f) (File tf)" "disk st t \<noteq> None"
    "data tf = encode_utf8 (decode_utf8 (data sf))"
  have "copied (disk st) (disk st') s t f"
    using a by (auto simp: copied_def lookup_put)
  moreover have "\<forall>g. g \<noteq> f \<longrightarrow> lookup (disk st') (t, g) = lookup (disk st) (t, g)"
    by (simp add: a(3) lookup_put)
  ultimately show ?thesis using a(1) by auto
qed

lemma migrate_files_changes:
  "migrate_files opts now s t files st = Inr st' \<Longrightarrow>
   \<exists>ws. written st' = written st @ ws \<and> set ws \<subseteq> set files
      \<and> (\<forall>g. g \<notin> set ws \<longrightarrow> lookup (disk st') (t, g) = lookup (disk st) (t, g))
      \<and> (\<forall>g \<in> set ws. copied (disk st) (disk st') s t g)"
proof (induction files arbitrary: st)
  case Nil
  then show ?case by simp
next
  case (Cons f files)
  then obtain st1 where s: "migrate_file opts now s t f st = Inr st1"
    "migrate_files opts now s t files st1 = Inr st'"
    by (auto split: sum.splits)
  from migrate_file_changes [OF s(1)] obtain ws1 where 1: "written st1 = written st @ ws1"
    "set ws1 \<subseteq> {f}"
    "\<forall>g. g \<notin> set ws1 \<longrightarrow> lookup (disk st1) (t, g) = lookup (disk st) (t, g)"
    "\<forall>g \<in> set ws1. copied (disk st) (disk st1) s t g"
    by blast
  from Cons.IH [OF s(2)] obtain ws2 where 2: "written st' = written st1 @ ws2"
    "set ws2 \<subseteq> set files"
    "\<forall>g. g \<notin> set ws2 \<longrightarrow> lookup (disk st') (t, g) = lookup (disk st1) (t, g)"
    "\<forall>g \<in> set ws2. copied (disk st1) (disk st') s t g"
    by blast
  have src: "lookup (disk st1) (s, g) = lookup (disk st) (s, g)" for g
    using migrate_file_evolves [OF s(1)] by (rule evolves_source)
  have "copied (disk st) (disk st') s t g" if "g \<in> set (ws1 @ ws2)" for g
  proof (cases "g \<in> set ws2")
    case True
    with 2(4) show ?thesis by (simp add: copied_def src)
  next
    case False
    with that 1(4) 2(3) show ?thesis by (auto simp: copied_def)
  qed
  moreover have "lookup (disk st') (t, g) = lookup (disk st) (t, g)" if "g \<notin> set (ws1 @ ws2)" for g
    using that 1(3) 2(3) by simp
  moreover have "written st' = written st @ ws1 @ ws2" "set (ws1 @ ws2) \<subseteq> set (f # files)"
    using 1(1,2) 2(1,2) by auto
  ultimately show ?case by blast
qed

text \<open>The names recorded by a pass over a listing without repetition.\<close>

lemma migrate_files_written:
  "distinct files \<Longrightarrow> migrate_files opts now s t files st = Inr st' \<Longrightarrow>
   written st' = written st @ filter (needs_copy (disk st) s t) files"
proof (induction files arbitrary: st)
  case Nil
  then show ?case by simp
next
  case (Cons f files)
  then obtain st1 where s: "migrate_file opts now s t f st = Inr st1"
    "migrate_files opts now s t files st1 = Inr st'"
    by (auto split: sum.splits)
  from Cons.prems(1) have d: "distinct files" "f \<notin> set files" by simp_all
  have ih: "written st' = written st1 @ filter (needs_copy (disk st1) s t) files"
    using Cons.IH [OF d(1) s(2)] .
  from migrate_file_Inr [OF s(1)] show ?case
  proof (elim disjE conjE exE)
    assume "settled (disk st) s t f" "disk st1 = disk st" "written st1 = written st"
    then show ?thesis using ih by (simp add: settled_not_needs_copy)
  next
    fix sf tf
    assume a: "needs_copy (disk st) s t f" "written st1 = written st @ [f]"
      "disk st1 = put (disk st) (t, f) (File tf)"
    have "needs_copy (disk st1) s t g = needs_copy (disk st) s t g" if "g \<in> set files" for g
    proof -
      from that d(2) have "g \<noteq> f" by auto
      then show ?thesis unfolding a(3) by (rule needs_copy_put)
    qed
    then have "filter (needs_copy (disk st1) s t) files = filter (needs_copy (disk st) s t) files"
      by (intro filter_cong refl)
    then show ?thesis using ih a(1,2) by simp
  qed
qed

lemma migrate_file_sums:
  assumes "migrate_file opts now s t f st = Inr st'"
  shows "sums st' =
     (case lookup (disk st) (s, f) of
        Some (File sf) \<Rightarrow>
          if enableIntegrityChecks opts
          then AList.update f (calculateMockChecksum (decode_utf8 (data sf))) (sums st)
          else sums st
      | _ \<Rightarrow> sums st)"
  using assms
  by (auto simp: migrate_file_def statSync_def readFileSync_def Let_def record_checksum_def
      split: option.splits node.splits sum.splits if_splits bool.splits
      dest!: write_target_Inr)

subsection \<open>The rollback loop\<close>










subsection \<open>The checksums of a pass\<close>


lemma migrate_files_sums:
  "migrate_files opts now s t files st = Inr st' \<Longrightarrow> enableIntegrityChecks opts \<Longrightarrow>
   map_of (sums st') f =
     (case lookup (disk st) (s, f) of
        Some (File sf) \<Rightarrow>
          if f \<in> set files then Some (calculateMockChecksum (decode_utf8 (data sf)))
          else map_of (sums st) f
      | _ \<Rightarrow> map_of (sums st) f)"
proof (induction files arbitrary: st)
  case Nil
  then show ?case by (simp split: option.splits node.splits)
next
  case (Cons g files)
  then obtain st1 where s: "migrate_file opts now s t g st = Inr st1"
    "migrate_files opts now s t files st1 = Inr st'"
    by (auto split: sum.splits)
  have src: "lookup (disk st1) (s, f) = lookup (disk st) (s, f)"
    using migrate_file_evolves [OF s(1)] by (rule evolves_source)
  have 1: "map_of (sums st1) f =
     (case lookup (disk st) (s, g) of
        Some (File sf) \<Rightarrow>
          if f = g then Some (calculateMockChecksum (decode_utf8 (data sf)))
          else map_of (sums st) f
      | _ \<Rightarrow> map_of (sums st) f)"
    using Cons.prems(2) by (simp add: migrate_file_sums [OF s(1)] update_conv' split: option.splits node.splits)
  show ?case
    unfolding Cons.IH [OF s(2) Cons.prems(2)] src 1
    by (auto split: option.splits node.splits)
qed

section \<open>The two operations\<close>

lemma performMockMigration_cases:
  assumes "performMockMigration src tgt opts now fs = (fs', r)"
  obtains (denied) "accessSync_W_OK fs tgt \<noteq> Inr ()" "fs' = fs"
      "r = \<lparr>success = False, error = Some ''permission denied - target directory not writable'',
            rollbackInfo = None, integrityChecks = None\<rparr>"
  | (nodir) e where "accessSync_W_OK fs tgt = Inr ()" "readdirSync fs src = Inl e" "fs' = fs"
      "r = failed e"
  | (thrown) files e where "accessSync_W_OK fs tgt = Inr ()" "readdirSync fs src = Inr files"
      "migrate_files opts now src tgt files \<lparr>disk = fs, written = [], sums = []\<rparr> = Inl (e, fs')"
      "r = failed e"
  | (finished) files st where "accessSync_W_OK fs tgt = Inr ()" "readdirSync fs src = Inr files"
      "migrate_files opts now src tgt files \<lparr>disk = fs, written = [], sums = []\<rparr> = Inr st"
      "fs' = disk st"
      "r = \<lparr>success = True, error = None,
            rollbackInfo =
              (if createRollbackInfo opts
               then Some \<lparr>sourceDir = src, targetDir = tgt,
                          migratedFiles = written st, timestamp = now\<rparr>
               else None),
            integrityChecks =
              (if enableIntegrityChecks opts
               then Some \<lparr>fileCount = length (written st), allChecksPassed = True,
                          checksums = sums st\<rparr>
               else None)\<rparr>"
  using assms
  by (auto simp: performMockMigration_def split: sum.splits prod.splits)

lemma success_failed [simp]: "\<not> success (failed e)"
  by (simp add: failed_def)

lemma performMockMigration_evolves:
  assumes "performMockMigration src tgt opts now fs = (fs', r)"
  shows "evolves src tgt fs fs'"
  using assms
proof (cases rule: performMockMigration_cases)
  case denied
  then show ?thesis by (simp add: evolves_refl)
next
  case (nodir e)
  then show ?thesis by (simp add: evolves_refl)
next
  case (thrown files e)
  from migrate_files_evolves(2) [OF thrown(3)] show ?thesis by simp
next
  case (finished files st)
  from migrate_files_evolves(1) [OF finished(3)] finished(4) show ?thesis by simp
qed

lemma performMockMigration_success:
  assumes "performMockMigration src tgt opts now fs = (fs', r)" "success r"
  obtains files st where "readdirSync fs src = Inr files"
      "migrate_files opts now src tgt files \<lparr>disk = fs, written = [], sums = []\<rparr> = Inr st"
      "fs' = disk st"
      "rollbackInfo r =
              (if createRollbackInfo opts
               then Some \<lparr>sourceDir = src, targetDir = tgt,
                          migratedFiles = written st, timestamp = now\<rparr>
               else None)"
      "integrityChecks r =
              (if enableIntegrityChecks opts
               then Some \<lparr>fileCount = length (written st), allChecksPassed = True,
                          checksums = sums st\<rparr>
               else None)"
  using assms by (cases rule: performMockMigration_cases) simp_all

lemma readdirSync_lists: "readdirSync fs src = Inr files \<Longrightarrow> lookup fs (src, f) = Some n \<Longrightarrow> f \<in> set files"
  by (force simp: readdirSync_def lookup_def split: option.splits dest!: map_of_SomeD)

text \<open>
  What the integrity report of a successful call holds: a checksum for every regular
  file of the source, and the number of files written as \<open>fileCount\<close>.
\<close>

lemma integrity_report_contents:
  assumes "performMockMigration src tgt opts now fs = (fs', r)" "success r"
    "enableIntegrityChecks opts" "fs src = Some d" "distinct (map fst (entries d))"
  shows "\<exists>ic. integrityChecks r = Some ic \<and> allChecksPassed ic
          \<and> fileCount ic = length (filter (needs_copy fs src tgt) (map fst (entries d)))
          \<and> (\<forall>f. map_of (checksums ic) f =
                (case lookup fs (src, f) of
                   Some (File sf) \<Rightarrow> Some (calculateMockChecksum (decode_utf8 (data sf)))
                 | _ \<Rightarrow> None))"
proof -
  from assms(1,2) obtain files st where run: "readdirSync fs src = Inr files"
    "migrate_files opts now src tgt files \<lparr>disk = fs, written = [], sums = []\<rparr> = Inr st"
    "integrityChecks r =
              (if enableIntegrityChecks opts
               then Some \<lparr>fileCount = length (written st), allChecksPassed = True,
                          checksums = sums st\<rparr>
               else None)"
    by (rule performMockMigration_success)
  have files: "files = map fst (entries d)" using run(1) assms(4) by (simp add: readdirSync_def)
  have w: "written st = filter (needs_copy fs src tgt) (map fst (entries d))"
    using migrate_files_written [OF _ run(2)] assms(5) by (simp add: files)
  have "map_of (sums st) f =
                (case lookup fs (src, f) of
                   Some (File sf) \<Rightarrow> Some (calculateMockChecksum (decode_utf8 (data sf)))
                 | _ \<Rightarrow> None)" for f
    using migrate_files_sums [OF run(2) assms(3), of f] readdirSync_lists [OF run(1), of f]
    by (auto split: option.splits node.splits)
  then show ?thesis using run(3) assms(3) w by simp
qed

section \<open>Runs on the example file systems\<close>

lemmas codec_defs = utf8_decode_def utf8_decode1_def is_cont_def second_ok_def replacement_def
  utf8_of_cp_def utf16_of_cp_def is_high_def is_low_def lone_def decode_utf8_def encode_utf8_def

lemmas fs_defs = lookup_def accessSync_W_OK_def readdirSync_def statSync_def existsSync_def
  readFileSync_def put_def writeFileSync_def utimesSync_def unlinkSync_def

lemmas run_defs = performMockMigration_def migrate_file_def record_checksum_def write_target_def
  already_migrated_def failed_def message_def performMockRollback_def Let_def

lemmas ex_defs = plain_def folder_def two_dirs_def no_options_def

lemmas sum_defs = calculateMockChecksum_def toString16_def hash_step_def js_shl_def js_and_def
  to_hex.simps hex_digit_def

lemma codec_test_content: "encode_utf8 (decode_utf8 ''# Test Content'') = ''# Test Content''"
  by (simp add: codec_defs char_of_eq_iff)

lemma codec_invalid_byte: "encode_utf8 (decode_utf8 [CHR 0xFF]) = [CHR 0xEF, CHR 0xBF, CHR 0xBD]"
  by (simp add: codec_defs char_of_eq_iff)

lemma codec_a: "encode_utf8 (decode_utf8 ''a'') = ''a''"
  by (simp add: codec_defs char_of_eq_iff)

lemma well_formed_test_content: "well_formed_utf8 ''# Test Content''"
  by (simp add: well_formed_utf8_def codec_defs)

lemma replacement_checksum: "calculateMockChecksum (decode_utf8 [CHR 0xFF]) = ''fffd''"
  by (simp add: codec_defs sum_defs char_of_eq_iff)

lemma basic_run:
  "performMockMigration ''source'' ''target'' (no_options\<lparr>createRollbackInfo := True\<rparr>) 7
     (two_dirs [(''test.md'', File (plain ''# Test Content''))] [])
   = (two_dirs [(''test.md'', File (plain ''# Test Content''))]
        [(''test.md'', File \<lparr>data = ''# Test Content'', atime = 7, mtime = 7,
                                readable = True, writable = True, owned = True\<rparr>)],
      \<lparr>success = True, error = None,
       rollbackInfo = Some \<lparr>sourceDir = ''source'', targetDir = ''target'',
                             migratedFiles = [''test.md''], timestamp = 7\<rparr>,
       integrityChecks = None\<rparr>)"
  by (simp add: run_defs fs_defs ex_defs codec_test_content)


lemma mixed_run:
  "performMockMigration ''source'' ''target'' (no_options\<lparr>createRollbackInfo := True\<rparr>) 7
     (two_dirs [(''a.md'', File (plain ''a'')), (''b.md'', File (plain ''b''))]
        [(''b.md'', File (plain ''b''))])
   = (two_dirs [(''a.md'', File (plain ''a'')), (''b.md'', File (plain ''b''))]
        [(''b.md'', File (plain ''b'')),
         (''a.md'', File \<lparr>data = ''a'', atime = 7, mtime = 7, readable = True,
                             writable = True, owned = True\<rparr>)],
      \<lparr>success = True, error = None,
       rollbackInfo = Some \<lparr>sourceDir = ''source'', targetDir = ''target'',
                             migratedFiles = [''a.md''], timestamp = 7\<rparr>,
       integrityChecks = None\<rparr>)"
  by (simp add: run_defs fs_defs ex_defs codec_a)

lemma binary_run:
  "performMockMigration ''source'' ''target'' (no_options\<lparr>enableIntegrityChecks := True\<rparr>) 7
     (two_dirs [(''bin.dat'', File (plain [CHR 0xFF]))] [])
   = (two_dirs [(''bin.dat'', File (plain [CHR 0xFF]))]
        [(''bin.dat'', File \<lparr>data = [CHR 0xEF, CHR 0xBF, CHR 0xBD], atime = 7, mtime = 7,
                                readable = True, writable = True, owned = True\<rparr>)],
      \<lparr>success = True, error = None, rollbackInfo = None,
       integrityChecks = Some \<lparr>fileCount = 1, allChecksPassed = True,
                                 checksums = [(''bin.dat'', ''fffd'')]\<rparr>\<rparr>)"
  by (simp add: run_defs fs_defs ex_defs codec_invalid_byte replacement_checksum)

lemma thrown_run:
  "performMockMigration ''source'' ''target''
     (no_options\<lparr>createRollbackInfo := True, enableIntegrityChecks := True\<rparr>) 7
     (two_dirs [(''a.md'', File (plain ''a'')), (''b.md'', File (plain ''b''))]
        [(''b.md'', Directory)])
   = (two_dirs [(''a.md'', File (plain ''a'')), (''b.md'', File (plain ''b''))]
        [(''b.md'', Directory),
         (''a.md'', File \<lparr>data = ''a'', atime = 7, mtime = 7, readable = True,
                             writable = True, owned = True\<rparr>)],
      \<lparr>success = False, error = Some ''EISDIR: illegal operation on a directory'',
       rollbackInfo = None, integrityChecks = None\<rparr>)"
  by (simp add: run_defs fs_defs ex_defs codec_a)

text \<open>
  What a successful call gives for every regular file of the source, whatever its bytes:
  the target holds a regular file of the same name that reads as the same text. For a
  source file, and a former target file, of well-formed UTF-8 the target holds the very
  bytes of the source.
\<close>

lemma migration_copies_text:
  assumes "performMockMigration src tgt opts now fs = (fs', r)" "success r"
    "lookup fs (src, f) = Some (File sf)"
  shows "\<exists>tf. lookup fs' (tgt, f) = Some (File tf)
          \<and> decode_utf8 (data tf) = decode_utf8 (data sf)
          \<and> calculateMockChecksum (decode_utf8 (data tf))
              = calculateMockChecksum (decode_utf8 (data sf))
          \<and> (needs_copy fs src tgt f \<longrightarrow> data tf = encode_utf8 (decode_utf8 (data sf)))
          \<and> (well_formed_utf8 (data sf)
               \<and> (\<forall>g. lookup fs (tgt, f) = Some (File g) \<longrightarrow> well_formed_utf8 (data g))
               \<longrightarrow> data tf = data sf)"
proof -
  from assms(1,2) obtain files st where run: "readdirSync fs src = Inr files"
    "migrate_files opts now src tgt files \<lparr>disk = fs, written = [], sums = []\<rparr> = Inr st"
    "fs' = disk st"
    by (rule performMockMigration_success)
  have f: "f \<in> set files" using run(1) assms(3) by (rule readdirSync_lists)
  have src: "lookup fs' (src, f) = Some (File sf)"
    using migrate_files_evolves(1) [OF run(2)] assms(3) by (simp add: run(3) evolves_source)
  from migrate_files_after [OF run(2) f] src
  obtain tf where tf: "lookup fs' (tgt, f) = Some (File tf)"
    "decode_utf8 (data tf) = decode_utf8 (data sf)"
    by (auto simp: settled_def run(3) split: option.splits node.splits)
  from migrate_files_changes [OF run(2)] obtain ws where ws:
    "\<forall>g. g \<notin> set ws \<longrightarrow> lookup fs' (tgt, g) = lookup fs (tgt, g)"
    "\<forall>g \<in> set ws. copied fs fs' src tgt g"
    by (auto simp: run(3))
  have enc: "data tf = encode_utf8 (decode_utf8 (data sf))" if "f \<in> set ws"
    using ws(2) that tf(1) assms(3) by (auto simp: copied_def)
  have "f \<in> set ws" if "needs_copy fs src tgt f"
  proof (rule ccontr)
    assume "f \<notin> set ws"
    with ws(1) tf(1) have "lookup fs (tgt, f) = Some (File tf)" by simp
    with that tf(2) assms(3) show False by (simp add: needs_copy_def)
  qed
  moreover have "data tf = data sf"
    if wf: "well_formed_utf8 (data sf)"
      "\<forall>g. lookup fs (tgt, f) = Some (File g) \<longrightarrow> well_formed_utf8 (data g)"
  proof (cases "f \<in> set ws")
    case True
    then show ?thesis using enc wf(1) by (simp add: encode_decode_well_formed)
  next
    case False
    with ws(1) tf(1) have "lookup fs (tgt, f) = Some (File tf)" by simp
    with wf(2) have "well_formed_utf8 (data tf)" by simp
    then have "data tf = encode_utf8 (decode_utf8 (data tf))"
      by (simp add: encode_decode_well_formed)
    then show ?thesis using tf(2) wf(1) by (simp add: encode_decode_well_formed)
  qed
  ultimately show ?thesis using tf enc by auto
qed

lemma migration_copies_text_example:
  "success (snd (performMockMigration ''source'' ''target''
                   (no_options\<lparr>createRollbackInfo := True\<rparr>) 7
                   (two_dirs [(''test.md'', File (plain ''# Test Content''))] [])))
   \<and> lookup (two_dirs [(''test.md'', File (plain ''# Test Content''))] [])
         (''source'', ''test.md'') = Some (File (plain ''# Test Content''))
   \<and> needs_copy (two_dirs [(''test.md'', File (plain ''# Test Content''))] [])
         ''source'' ''target'' ''test.md''
   \<and> well_formed_utf8 ''# Test Content''
   \<and> (\<exists>tf. lookup (fst (performMockMigration ''source'' ''target''
                            (no_options\<lparr>createRollbackInfo := True\<rparr>) 7
                            (two_dirs [(''test.md'', File (plain ''# Test Content''))] [])))
               (''target'', ''test.md'') = Some (File tf)
          \<and> decode_utf8 (data tf) = decode_utf8 ''# Test Content''
          \<and> calculateMockChecksum (decode_utf8 (data tf))
              = calculateMockChecksum (decode_utf8 ''# Test Content'')
          \<and> data tf = encode_utf8 (decode_utf8 ''# Test Content'')
          \<and> data tf = ''# Test Content'')"
  using migration_copies_text [OF basic_run, of "''test.md''" "plain ''# Test Content''"]
    well_formed_test_content basic_run
  by (simp add: fs_defs ex_defs needs_copy_def)

lemma binary_rerun:
  "performMockMigration ''source'' ''target'' (no_options\<lparr>createRollbackInfo := True\<rparr>) 8
     (two_dirs [(''bin.dat'', File (plain [CHR 0xFF]))]
        [(''bin.dat'', File \<lparr>data = [CHR 0xEF, CHR 0xBF, CHR 0xBD], atime = 7, mtime = 7,
                                readable = True, writable = True, owned = True\<rparr>)])
   = (two_dirs [(''bin.dat'', File (plain [CHR 0xFF]))]
        [(''bin.dat'', File \<lparr>data = [CHR 0xEF, CHR 0xBF, CHR 0xBD], atime = 7, mtime = 7,
                                readable = True, writable = True, owned = True\<rparr>)],
      \<lparr>success = True, error = None,
       rollbackInfo = Some \<lparr>sourceDir = ''source'', targetDir = ''target'',
                             migratedFiles = [], timestamp = 8\<rparr>,
       integrityChecks = None\<rparr>)"
  by (simp add: run_defs fs_defs ex_defs codec_defs)

lemma codec_g: "encode_utf8 (decode_utf8 ''g'') = ''g''"
  by (simp add: codec_defs char_of_eq_iff)

lemma codec_h: "encode_utf8 (decode_utf8 ''h'') = ''h''"
  by (simp add: codec_defs char_of_eq_iff)

lemma text_old_g: "decode_utf8 ''old'' \<noteq> decode_utf8 ''g''"
  by (simp add: codec_defs)

lemma foreign_run:
  "performMockMigration ''source'' ''target''
     (no_options\<lparr>createRollbackInfo := True, preserveMetadata := True\<rparr>) 7
     (two_dirs [(''g.md'', File (plain ''g'')), (''h.md'', File (plain ''h''))]
        [(''g.md'', File \<lparr>data = ''old'', atime = 1, mtime = 1, readable = True,
                             writable = True, owned = False\<rparr>)])
   = (two_dirs [(''g.md'', File (plain ''g'')), (''h.md'', File (plain ''h''))]
        [(''g.md'', File \<lparr>data = ''g'', atime = 1, mtime = 7, readable = True,
                             writable = True, owned = False\<rparr>)],
      \<lparr>success = False, error = Some ''EPERM: operation not permitted'',
       rollbackInfo = None, integrityChecks = None\<rparr>)"
  by (simp add: run_defs fs_defs ex_defs codec_g text_old_g)

lemma foreign_rerun:
  "performMockMigration ''source'' ''target''
     (no_options\<lparr>createRollbackInfo := True, preserveMetadata := True\<rparr>) 8
     (two_dirs [(''g.md'', File (plain ''g'')), (''h.md'', File (plain ''h''))]
        [(''g.md'', File \<lparr>data = ''g'', atime = 1, mtime = 7, readable = True,
                             writable = True, owned = False\<rparr>)])
   = (two_dirs [(''g.md'', File (plain ''g'')), (''h.md'', File (plain ''h''))]
        [(''g.md'', File \<lparr>data = ''g'', atime = 1, mtime = 7, readable = True,
                             writable = True, owned = False\<rparr>),
         (''h.md'', File \<lparr>data = ''h'', atime = 1, mtime = 1, readable = True,
                             writable = True, owned = True\<rparr>)],
      \<lparr>success = True, error = None,
       rollbackInfo = Some \<lparr>sourceDir = ''source'', targetDir = ''target'',
                             migratedFiles = [''h.md''], timestamp = 8\<rparr>,
       integrityChecks = None\<rparr>)"
  by (simp add: run_defs fs_defs ex_defs codec_h)

section \<open>The properties of the specification\<close>

text \<open>
  C1 says that a second call in succession, on any source and target, leaves the target
  as the first call left it and has an empty list of migrated files, every file being
  passed over because its target copy holds the same bytes. Two runs show otherwise. A
  source file of the single byte 0xFF is written as 0xEF 0xBF 0xBD by the first call and
  passed over by the second, with other bytes in the target than in the source. And
  after a first call that threw in the middle of the pass (here \<^verbatim>\<open>utimesSync\<close> on a
  target file of another owner), the second call goes on with the rest of the listing:
  it writes \<open>h.md\<close> and lists it.
\<close>

theorem idempotence_counterexample:
  "performMockMigration ''source'' ''target'' (no_options\<lparr>createRollbackInfo := True\<rparr>) 8
     (two_dirs [(''bin.dat'', File (plain [CHR 0xFF]))]
        [(''bin.dat'', File \<lparr>data = [CHR 0xEF, CHR 0xBF, CHR 0xBD], atime = 7, mtime = 7,
                                readable = True, writable = True, owned = True\<rparr>)])
   = (two_dirs [(''bin.dat'', File (plain [CHR 0xFF]))]
        [(''bin.dat'', File \<lparr>data = [CHR 0xEF, CHR 0xBF, CHR 0xBD], atime = 7, mtime = 7,
                                readable = True, writable = True, owned = True\<rparr>)],
      \<lparr>success = True, error = None,
       rollbackInfo = Some \<lparr>sourceDir = ''source'', targetDir = ''target'',
                             migratedFiles = [], timestamp = 8\<rparr>,
       integrityChecks = None\<rparr>)
   \<and> fst (performMockMigration ''source'' ''target''
             (no_options\<lparr>createRollbackInfo := True\<rparr>) 7
             (two_dirs [(''bin.dat'', File (plain [CHR 0xFF]))] []))
       = two_dirs [(''bin.dat'', File (plain [CHR 0xFF]))]
           [(''bin.dat'', File \<lparr>data = [CHR 0xEF, CHR 0xBF, CHR 0xBD], atime = 7, mtime = 7,
                                   readable = True, writable = True, owned = True\<rparr>)]
   \<and> [CHR 0xEF, CHR 0xBF, CHR 0xBD] \<noteq> data (plain [CHR 0xFF])
   \<and> performMockMigration ''source'' ''target''
       (no_options\<lparr>createRollbackInfo := True, preserveMetadata := True\<rparr>) 7
       (two_dirs [(''g.md'', File (plain ''g'')), (''h.md'', File (plain ''h''))]
          [(''g.md'', File \<lparr>data = ''old'', atime = 1, mtime = 1, readable = True,
                               writable = True, owned = False\<rparr>)])
     = (two_dirs [(''g.md'', File (plain ''g'')), (''h.md'', File (plain ''h''))]
          [(''g.md'', File \<lparr>data = ''g'', atime = 1, mtime = 7, readable = True,
                               writable = True, owned = False\<rparr>)],
        \<lparr>success = False, error = Some ''EPERM: operation not permitted'',
         rollbackInfo = None, integrityChecks = None\<rparr>)
   \<and> performMockMigration ''source'' ''target''
       (no_options\<lparr>createRollbackInfo := True, preserveMetadata := True\<rparr>) 8
       (two_dirs [(''g.md'', File (plain ''g'')), (''h.md'', File (plain ''h''))]
          [(''g.md'', File \<lparr>data = ''g'', atime = 1, mtime = 7, readable = True,
                               writable = True, owned = False\<rparr>)])
     = (two_dirs [(''g.md'', File (plain ''g'')), (''h.md'', File (plain ''h''))]
          [(''g.md'', File \<lparr>data = ''g'', atime = 1, mtime = 7, readable = True,
                               writable = True, owned = False\<rparr>),
           (''h.md'', File \<lparr>data = ''h'', atime = 1, mtime = 1, readable = True,
                               writable = True, owned = True\<rparr>)],
        \<lparr>success = True, error = None,
         rollbackInfo = Some \<lparr>sourceDir = ''source'', targetDir = ''target'',
                               migratedFiles = [''h.md''], timestamp = 8\<rparr>,
         integrityChecks = None\<rparr>)"
  using binary_rerun foreign_run foreign_rerun
  by (simp add: run_defs fs_defs ex_defs codec_invalid_byte)

text \<open>
  C1, amended. Migration is idempotent after a call that succeeded: a second call in
  succession on the file system the first one left (with any options, at any later time)
  succeeds, leaves that file system as it is, and its list of migrated files is empty,
  every file being passed over.
\<close>

theorem migration_idempotent:
  assumes "performMockMigration src tgt opts now fs = (fs1, r1)" "success r1"
  shows "\<exists>r2. performMockMigration src tgt opts' now' fs1 = (fs1, r2)
          \<and> success r2 \<and> error r2 = None
          \<and> rollbackInfo r2 =
                (if createRollbackInfo opts'
                 then Some \<lparr>sourceDir = src, targetDir = tgt, migratedFiles = [],
                            timestamp = now'\<rparr>
                 else None)"
proof -
  have ev: "evolves src tgt fs fs1" using assms(1) by (rule performMockMigration_evolves)
  then have acc: "accessSync_W_OK fs1 tgt = accessSync_W_OK fs tgt"
    and rd: "readdirSync fs1 src = readdirSync fs src"
    by (simp_all add: evolves_def readdirSync_def)
  from assms show ?thesis
  proof (cases rule: performMockMigration_cases)
    case denied
    with assms(2) show ?thesis by simp
  next
    case (nodir e)
    with assms(2) show ?thesis by simp
  next
    case (thrown files e)
    with assms(2) show ?thesis by simp
  next
    case (finished files st)
    have "\<forall>f \<in> set files. settled (disk \<lparr>disk = fs1, written = [], sums = []\<rparr>) src tgt f"
      using migrate_files_after [OF finished(3)] finished(4) by simp
    from migrate_files_settled [OF this, of opts' now']
    obtain st' where "migrate_files opts' now' src tgt files \<lparr>disk = fs1, written = [], sums = []\<rparr> = Inr st'"
      "disk st' = fs1" "written st' = []"
      by auto
    then show ?thesis using finished acc rd by (simp add: performMockMigration_def)
  qed
qed

theorem migration_idempotent_witness:
  "performMockMigration ''source'' ''target'' (no_options\<lparr>createRollbackInfo := True\<rparr>) 7
     (two_dirs [(''test.md'', File (plain ''# Test Content''))] [])
   = (two_dirs [(''test.md'', File (plain ''# Test Content''))]
        [(''test.md'', File \<lparr>data = ''# Test Content'', atime = 7, mtime = 7,
                                readable = True, writable = True, owned = True\<rparr>)],
      \<lparr>success = True, error = None,
       rollbackInfo = Some \<lparr>sourceDir = ''source'', targetDir = ''target'',
                             migratedFiles = [''test.md''], timestamp = 7\<rparr>,
       integrityChecks = None\<rparr>)
   \<and> (\<exists>r2. performMockMigration ''source'' ''target''
               (no_options\<lparr>createRollbackInfo := True\<rparr>) 8
               (two_dirs [(''test.md'', File (plain ''# Test Content''))]
                  [(''test.md'', File \<lparr>data = ''# Test Content'', atime = 7, mtime = 7,
                                          readable = True, writable = True, owned = True\<rparr>)])
             = (two_dirs [(''test.md'', File (plain ''# Test Content''))]
                  [(''test.md'', File \<lparr>data = ''# Test Content'', atime = 7, mtime = 7,
                                          readable = True, writable = True, owned = True\<rparr>)], r2)
           \<and> success r2 \<and> error r2 = None
           \<and> rollbackInfo r2 = Some \<lparr>sourceDir = ''source'', targetDir = ''target'',
                                       migratedFiles = [], timestamp = 8\<rparr>)"
  using migration_idempotent [OF basic_run, of "no_options\<lparr>createRollbackInfo := True\<rparr>" 8]
    basic_run
  by simp

text \<open>
  C2 says that after a successful call the target holds, for every regular file of the
  source, a file of the same name with the same bytes, and that the checksum of the
  migrated content is the checksum of the source content. The code returns success
  without that for a source file whose bytes are not well-formed UTF-8: it is read as
  text and written back encoded. A source file of the single byte 0xFF arrives as the
  three bytes 0xEF 0xBF 0xBD.
\<close>

theorem byte_identity_counterexample:
  "success (snd (performMockMigration ''source'' ''target'' no_options 7
                  (two_dirs [(''bin.dat'', File (plain [CHR 0xFF]))] [])))
   \<and> lookup (two_dirs [(''bin.dat'', File (plain [CHR 0xFF]))] []) (''source'', ''bin.dat'')
       = Some (File (plain [CHR 0xFF]))
   \<and> lookup (fst (performMockMigration ''source'' ''target'' no_options 7
                     (two_dirs [(''bin.dat'', File (plain [CHR 0xFF]))] [])))
         (''target'', ''bin.dat'')
       = Some (File \<lparr>data = [CHR 0xEF, CHR 0xBF, CHR 0xBD], atime = 7, mtime = 7,
                        readable = True, writable = True, owned = True\<rparr>)
   \<and> [CHR 0xEF, CHR 0xBF, CHR 0xBD] \<noteq> data (plain [CHR 0xFF])"
  by (simp add: run_defs fs_defs ex_defs codec_invalid_byte)

text \<open>
  C3. When the target directory is not writable, the call returns \<open>success = false\<close>
  with the error \<open>permission denied - target directory not writable\<close> and leaves the
  whole file system as it was: no file is written or modified.
\<close>

theorem permission_failure_atomic:
  assumes "fs tgt = Some d" "\<not> dir_writable d"
  shows "performMockMigration src tgt opts now fs =
           (fs, \<lparr>success = False,
                 error = Some ''permission denied - target directory not writable'',
                 rollbackInfo = None, integrityChecks = None\<rparr>)"
  using assms by (simp add: performMockMigration_def accessSync_W_OK_def)

theorem permission_failure_atomic_witness:
  "read_only_target ''target'' = Some \<lparr>dir_writable = False, entries = []\<rparr>
   \<and> performMockMigration ''source'' ''target'' no_options 7 read_only_target
       = (read_only_target,
          \<lparr>success = False,
           error = Some ''permission denied - target directory not writable'',
           rollbackInfo = None, integrityChecks = None\<rparr>)"
  using permission_failure_atomic [of read_only_target "''target''"
      "\<lparr>dir_writable = False, entries = []\<rparr>" "''source''" no_options 7]
  by (simp add: read_only_target_def)

text \<open>
  C4 says that the integrity report of a successful call holds a checksum for every
  regular source file processed, that \<open>allChecksPassed\<close> is true and that
  \<open>fileCount\<close> is the number of files processed, also when some of them were passed
  over as already migrated. The code counts the files it wrote: with three source files,
  one of them already in the target, the report holds three checksums,
  \<open>allChecksPassed = true\<close> and \<open>fileCount = 2\<close>.
\<close>

theorem integrity_fileCount_skipped:
  "snd (performMockMigration ''source'' ''target'' (no_options\<lparr>enableIntegrityChecks := True\<rparr>) 7
         (two_dirs [(''document.md'', File (plain ''# Test'')),
                    (''data.yml'', File (plain ''key: value'')),
                    (''config.json'', File (plain ''{}''))]
                   [(''config.json'', File (plain ''{}''))]))
   = \<lparr>success = True, error = None, rollbackInfo = None,
      integrityChecks = Some \<lparr>fileCount = 2, allChecksPassed = True,
        checksums = [(''document.md'', ''3da4468f''), (''data.yml'', ''-136ea534''),
                     (''config.json'', ''f62'')]\<rparr>\<rparr>"
  by (simp add: run_defs fs_defs ex_defs codec_defs sum_defs char_of_eq_iff)





text \<open>
  C7. With \<open>createRollbackInfo\<close>, a successful call returns a descriptor that records
  the source directory, the target directory, the time of the call and, in listing
  order, the names of the files written in this pass: the regular files of the source
  for which the target held no regular file with the same text. The target holds the
  encoded source text under each listed name, every other entry of the target is as
  before, and a source file whose target copy held the same bytes is not listed.
\<close>

theorem rollback_info_lists_written_files:
  assumes "performMockMigration src tgt opts now fs = (fs', r)" "success r"
    "createRollbackInfo opts" "fs src = Some d" "distinct (map fst (entries d))"
  shows "\<exists>info. rollbackInfo r = Some info
          \<and> sourceDir info = src \<and> targetDir info = tgt \<and> timestamp info = now
          \<and> migratedFiles info = filter (needs_copy fs src tgt) (map fst (entries d))
          \<and> (\<forall>f \<in> set (migratedFiles info). copied fs fs' src tgt f)
          \<and> (\<forall>f. f \<notin> set (migratedFiles info) \<longrightarrow> lookup fs' (tgt, f) = lookup fs (tgt, f))
          \<and> (\<forall>f sf tf. lookup fs (src, f) = Some (File sf) \<and> lookup fs (tgt, f) = Some (File tf)
                \<and> data tf = data sf \<longrightarrow> f \<notin> set (migratedFiles info))"
proof -
  from assms(1,2) obtain files st where run: "readdirSync fs src = Inr files"
    "migrate_files opts now src tgt files \<lparr>disk = fs, written = [], sums = []\<rparr> = Inr st"
    "fs' = disk st"
    "rollbackInfo r =
              (if createRollbackInfo opts
               then Some \<lparr>sourceDir = src, targetDir = tgt,
                          migratedFiles = written st, timestamp = now\<rparr>
               else None)"
    by (rule performMockMigration_success)
  have files: "files = map fst (entries d)" using run(1) assms(4) by (simp add: readdirSync_def)
  have w: "written st = filter (needs_copy fs src tgt) (map fst (entries d))"
    using migrate_files_written [OF _ run(2)] assms(5) by (simp add: files)
  from migrate_files_changes [OF run(2)] have ch:
    "\<forall>g. g \<notin> set (written st) \<longrightarrow> lookup fs' (tgt, g) = lookup fs (tgt, g)"
    "\<forall>g \<in> set (written st). copied fs fs' src tgt g"
    by (auto simp: run(3))
  have "f \<notin> set (written st)"
    if "lookup fs (src, f) = Some (File sf)" "lookup fs (tgt, f) = Some (File tf)"
      "data tf = data sf" for f sf tf
    using that by (simp add: w needs_copy_def)
  then show ?thesis
    using run(4) assms(3) ch w by auto
qed

theorem rollback_info_lists_written_files_witness:
  "success (snd (performMockMigration ''source'' ''target''
                   (no_options\<lparr>createRollbackInfo := True\<rparr>) 7
                   (two_dirs [(''a.md'', File (plain ''a'')), (''b.md'', File (plain ''b''))]
                      [(''b.md'', File (plain ''b''))])))
   \<and> createRollbackInfo (no_options\<lparr>createRollbackInfo := True\<rparr>)
   \<and> two_dirs [(''a.md'', File (plain ''a'')), (''b.md'', File (plain ''b''))]
        [(''b.md'', File (plain ''b''))] ''source''
       = Some (folder [(''a.md'', File (plain ''a'')), (''b.md'', File (plain ''b''))])
   \<and> distinct (map fst (entries (folder [(''a.md'', File (plain ''a'')),
                                          (''b.md'', File (plain ''b''))])))
   \<and> (\<exists>info. rollbackInfo (snd (performMockMigration ''source'' ''target''
                   (no_options\<lparr>createRollbackInfo := True\<rparr>) 7
                   (two_dirs [(''a.md'', File (plain ''a'')), (''b.md'', File (plain ''b''))]
                      [(''b.md'', File (plain ''b''))]))) = Some info
      \<and> sourceDir info = ''source'' \<and> targetDir info = ''target'' \<and> timestamp info = 7
      \<and> migratedFiles info = [''a.md''] \<and> ''b.md'' \<notin> set (migratedFiles info)
      \<and> lookup (fst (performMockMigration ''source'' ''target''
                   (no_options\<lparr>createRollbackInfo := True\<rparr>) 7
                   (two_dirs [(''a.md'', File (plain ''a'')), (''b.md'', File (plain ''b''))]
                      [(''b.md'', File (plain ''b''))]))) (''target'', ''b.md'')
          = Some (File (plain ''b'')))"
  using rollback_info_lists_written_files [OF mixed_run,
      of "folder [(''a.md'', File (plain ''a'')), (''b.md'', File (plain ''b''))]"]
    mixed_run
  by (simp add: fs_defs ex_defs needs_copy_def codec_defs)

text \<open>
  C8. Under every option set, \<open>preserveOriginal = false\<close> included, a call leaves the
  source directory as it was: the same entries, in the same order, with the same
  content, times and permissions.
\<close>

theorem migration_preserves_source:
  "fst (performMockMigration src tgt opts now fs) src = fs src"
  using performMockMigration_evolves [of src tgt opts now fs]
  by (cases "performMockMigration src tgt opts now fs") (simp add: evolves_def)

theorem migration_preserves_source_witness:
  "fst (performMockMigration ''source'' ''target'' (no_options\<lparr>preserveOriginal := False\<rparr>) 7
         (two_dirs [(''test.md'', File (plain ''# Test Content''))] [])) ''source''
   = Some (folder [(''test.md'', File (plain ''# Test Content''))])"
  using migration_preserves_source [of "''source''" "''target''"
      "no_options\<lparr>preserveOriginal := False\<rparr>" 7
      "two_dirs [(''test.md'', File (plain ''# Test Content''))] []"]
  by (simp add: ex_defs)

text \<open>
  C9. Every successful call with \<open>enableIntegrityChecks\<close> returns a report whose
  \<open>allChecksPassed\<close> is true: the flag is a constant, no checksum of what was written is
  computed or compared. It is true also where the bytes written differ from the bytes of
  the source.
\<close>

theorem integrity_flag_constant:
  assumes "performMockMigration src tgt opts now fs = (fs', r)" "success r"
    "enableIntegrityChecks opts"
  shows "\<exists>ic. integrityChecks r = Some ic \<and> allChecksPassed ic"
  using assms by (cases rule: performMockMigration_cases) simp_all

theorem integrity_flag_constant_witness:
  "success (snd (performMockMigration ''source'' ''target''
                   (no_options\<lparr>enableIntegrityChecks := True\<rparr>) 7
                   (two_dirs [(''bin.dat'', File (plain [CHR 0xFF]))] [])))
   \<and> enableIntegrityChecks (no_options\<lparr>enableIntegrityChecks := True\<rparr>)
   \<and> lookup (fst (performMockMigration ''source'' ''target''
                   (no_options\<lparr>enableIntegrityChecks := True\<rparr>) 7
                   (two_dirs [(''bin.dat'', File (plain [CHR 0xFF]))] [])))
         (''target'', ''bin.dat'')
       = Some (File \<lparr>data = [CHR 0xEF, CHR 0xBF, CHR 0xBD], atime = 7, mtime = 7,
                        readable = True, writable = True, owned = True\<rparr>)
   \<and> (\<exists>ic. integrityChecks (snd (performMockMigration ''source'' ''target''
                   (no_options\<lparr>enableIntegrityChecks := True\<rparr>) 7
                   (two_dirs [(''bin.dat'', File (plain [CHR 0xFF]))] []))) = Some ic
          \<and> allChecksPassed ic)"
  using integrity_flag_constant [OF binary_run] binary_run
  by (simp add: fs_defs ex_defs)

text \<open>
  C10. A call that returns \<open>success = false\<close> returns neither a rollback descriptor nor
  an integrity report, whatever the options asked for. A file written before an exception
  in the middle of the pass stays in the target and is named nowhere in the result.
\<close>

theorem failed_result_bare:
  assumes "performMockMigration src tgt opts now fs = (fs', r)" "\<not> success r"
  shows "rollbackInfo r = None \<and> integrityChecks r = None"
  using assms by (cases rule: performMockMigration_cases) (simp_all add: failed_def)

theorem failed_result_bare_witness:
  "\<not> success (snd (performMockMigration ''source'' ''target''
        (no_options\<lparr>createRollbackInfo := True, enableIntegrityChecks := True\<rparr>) 7
        (two_dirs [(''a.md'', File (plain ''a'')), (''b.md'', File (plain ''b''))]
           [(''b.md'', Directory)])))
   \<and> lookup (fst (performMockMigration ''source'' ''target''
        (no_options\<lparr>createRollbackInfo := True, enableIntegrityChecks := True\<rparr>) 7
        (two_dirs [(''a.md'', File (plain ''a'')), (''b.md'', File (plain ''b''))]
           [(''b.md'', Directory)]))) (''target'', ''a.md'')
       = Some (File \<lparr>data = ''a'', atime = 7, mtime = 7, readable = True, writable = True, owned = True\<rparr>)
   \<and> rollbackInfo (snd (performMockMigration ''source'' ''target''
        (no_options\<lparr>createRollbackInfo := True, enableIntegrityChecks := True\<rparr>) 7
        (two_dirs [(''a.md'', File (plain ''a'')), (''b.md'', File (plain ''b''))]
           [(''b.md'', Directory)]))) = None
   \<and> integrityChecks (snd (performMockMigration ''source'' ''target''
        (no_options\<lparr>createRollbackInfo := True, enableIntegrityChecks := True\<rparr>) 7
        (two_dirs [(''a.md'', File (plain ''a'')), (''b.md'', File (plain ''b''))]
           [(''b.md'', Directory)]))) = None"
  using failed_result_bare [OF thrown_run] thrown_run
  by (simp add: fs_defs ex_defs)

end
